theory Spec2Isabelle
  imports Complex_Main "HOL-Library.AList" "HOL-Library.Sublist"
begin

text \<open>
  The backend of the gym tracker: an in-memory store of workouts and the HTTP handlers
  in front of it. The store and the handlers are embedded as functions on an explicit
  store value. Three things the code takes from outside are inputs of the model: the
  reading of \<open>time.Now()\<close>, the outcome of decoding the JSON body, and the method
  and path of the request. Requests are served one at a time: the store's lock and the
  interleaving of concurrent requests are not modelled.
\<close>

section \<open>Go library functions used by the handlers\<close>

subsection \<open>strings.TrimSpace\<close>

text \<open>
  Go strings are byte sequences holding UTF-8 text; \<open>string\<close> (a list of 8-bit
  characters) models them byte for byte. \<open>strings.TrimSpace\<close> removes every leading
  and trailing rune for which \<open>unicode.IsSpace\<close> holds. Those runes are listed here by
  their UTF-8 encodings: tab, line feed, vertical tab, form feed, carriage return,
  space, U+0085, U+00A0, U+1680, U+2000 to U+200A, U+2028, U+2029, U+202F, U+205F and
  U+3000.
\<close>

definition unicode_space :: "string list" where
  "unicode_space =
     [[CHR 0x09], [CHR 0x0A], [CHR 0x0B], [CHR 0x0C], [CHR 0x0D], [CHR 0x20],
      [CHR 0xC2, CHR 0x85], [CHR 0xC2, CHR 0xA0],
      [CHR 0xE1, CHR 0x9A, CHR 0x80],
      [CHR 0xE2, CHR 0x80, CHR 0x80], [CHR 0xE2, CHR 0x80, CHR 0x81],
      [CHR 0xE2, CHR 0x80, CHR 0x82], [CHR 0xE2, CHR 0x80, CHR 0x83],
      [CHR 0xE2, CHR 0x80, CHR 0x84], [CHR 0xE2, CHR 0x80, CHR 0x85],
      [CHR 0xE2, CHR 0x80, CHR 0x86], [CHR 0xE2, CHR 0x80, CHR 0x87],
      [CHR 0xE2, CHR 0x80, CHR 0x88], [CHR 0xE2, CHR 0x80, CHR 0x89],
      [CHR 0xE2, CHR 0x80, CHR 0x8A],
      [CHR 0xE2, CHR 0x80, CHR 0xA8], [CHR 0xE2, CHR 0x80, CHR 0xA9],
      [CHR 0xE2, CHR 0x80, CHR 0xAF],
      [CHR 0xE2, CHR 0x81, CHR 0x9F],
      [CHR 0xE3, CHR 0x80, CHR 0x80]]"

text \<open>The width in bytes of the white-space rune a string starts with (ends with),
  0 when it starts (ends) with none.\<close>

definition leading_space :: "string \<Rightarrow> nat" where
  "leading_space s =
     (case find (\<lambda>w. prefix w s) unicode_space of None \<Rightarrow> 0 | Some w \<Rightarrow> length w)"

definition trailing_space :: "string \<Rightarrow> nat" where
  "trailing_space s =
     (case find (\<lambda>w. suffix w s) unicode_space of None \<Rightarrow> 0 | Some w \<Rightarrow> length w)"

function TrimLeft :: "string \<Rightarrow> string" where
  "TrimLeft s = (if leading_space s = 0 then s else TrimLeft (drop (leading_space s) s))"
  by pat_completeness auto
termination
proof (relation "measure length")
  fix s :: string
  assume "leading_space s \<noteq> 0"
  moreover have "leading_space [] = 0"
    by (simp add: leading_space_def unicode_space_def)
  ultimately have "s \<noteq> []" by auto
  then show "(drop (leading_space s) s, s) \<in> measure length"
    using \<open>leading_space s \<noteq> 0\<close> by simp
qed simp

function TrimRight :: "string \<Rightarrow> string" where
  "TrimRight s =
     (if trailing_space s = 0 then s else TrimRight (take (length s - trailing_space s) s))"
  by pat_completeness auto
termination
proof (relation "measure length")
  fix s :: string
  assume "trailing_space s \<noteq> 0"
  moreover have "trailing_space [] = 0"
    by (simp add: trailing_space_def unicode_space_def)
  ultimately have "s \<noteq> []" by auto
  then show "(take (length s - trailing_space s) s, s) \<in> measure length"
    using \<open>trailing_space s \<noteq> 0\<close> by simp
qed simp

definition TrimSpace :: "string \<Rightarrow> string" where
  "TrimSpace s = TrimRight (TrimLeft s)"

subsection \<open>strconv.Itoa, strconv.Atoi, strings.Trim, strings.Split\<close>

definition isDigit :: "char \<Rightarrow> bool" where
  "isDigit c = (c \<in> set ''0123456789'')"

definition digit_of :: "char \<Rightarrow> int" where
  "digit_of c = int (of_char c) - 48"

definition digit_char :: "nat \<Rightarrow> char" where
  "digit_char d = char_of (48 + d)"

function decimal :: "nat \<Rightarrow> string" where
  "decimal n = (if n < 10 then [digit_char n] else decimal (n div 10) @ [digit_char (n mod 10)])"
  by pat_completeness auto
termination
  by (relation "measure id") auto

text \<open>\<open>strconv.Itoa\<close>: the decimal text of an integer.\<close>

definition Itoa :: "int \<Rightarrow> string" where
  "Itoa i = (if i < 0 then CHR ''-'' # decimal (nat (- i)) else decimal (nat i))"

text \<open>
  \<open>strconv.Atoi\<close> on a 64-bit target: an optional sign, then one or more decimal
  digits; the value has to fit the \<open>int\<close> type. \<open>None\<close> stands for a non-nil error.
\<close>

definition Atoi :: "string \<Rightarrow> int option" where
  "Atoi s =
     (let neg = (s \<noteq> [] \<and> hd s = CHR ''-'');
          ds = (if s \<noteq> [] \<and> (hd s = CHR ''-'' \<or> hd s = CHR ''+'') then tl s else s)
      in if ds = [] \<or> \<not> list_all isDigit ds then None
         else let n = foldl (\<lambda>a c. a * 10 + digit_of c) 0 ds;
                  v = (if neg then - n else n)
              in if v < - (2 ^ 63) \<or> 2 ^ 63 \<le> v then None else Some v)"

text \<open>\<open>strings.Trim s cutset\<close> for a cutset of ASCII bytes.\<close>

definition Trim :: "string \<Rightarrow> string \<Rightarrow> string" where
  "Trim s cutset =
     rev (dropWhile (\<lambda>c. c \<in> set cutset) (rev (dropWhile (\<lambda>c. c \<in> set cutset) s)))"

text \<open>\<open>strings.Split s sep\<close> for a separator of one byte: the pieces between the
  separators, one more than there are separators.\<close>

fun Split :: "string \<Rightarrow> char \<Rightarrow> string list" where
  "Split [] sep = [[]]"
| "Split (c # cs) sep =
     (if c = sep then [] # Split cs sep
      else (case Split cs sep of [] \<Rightarrow> [[c]] | p # ps \<Rightarrow> (c # p) # ps))"

subsection \<open>time.Parse with the layout 2006-01-02\<close>

definition isLeap :: "int \<Rightarrow> bool" where
  "isLeap year = (year mod 4 = 0 \<and> (year mod 100 \<noteq> 0 \<or> year mod 400 = 0))"

definition daysIn :: "int \<Rightarrow> int \<Rightarrow> int" where
  "daysIn month year =
     (if month = 2 then (if isLeap year then 29 else 28)
      else if month = 4 \<or> month = 6 \<or> month = 9 \<or> month = 11 then 30 else 31)"

text \<open>
  \<open>time.Parse "2006-01-02" value\<close>: four digits of year, a dash, two digits of
  month, a dash, two digits of day and nothing after them; the month is 1 to 12 and
  the day exists in that month of that year. The result is (year, month, day);
  \<open>None\<close> stands for a non-nil error.
\<close>

fun parseDate :: "string \<Rightarrow> (int \<times> int \<times> int) option" where
  "parseDate [y1, y2, y3, y4, s1, m1, m2, s2, d1, d2] =
     (if \<not> (isDigit y1 \<and> isDigit y2 \<and> isDigit y3 \<and> isDigit y4) then None
      else if s1 \<noteq> CHR ''-'' then None
      else if \<not> (isDigit m1 \<and> isDigit m2) then None
      else if s2 \<noteq> CHR ''-'' then None
      else if \<not> (isDigit d1 \<and> isDigit d2) then None
      else let year = digit_of y1 * 1000 + digit_of y2 * 100 + digit_of y3 * 10 + digit_of y4;
               month = digit_of m1 * 10 + digit_of m2;
               day = digit_of d1 * 10 + digit_of d2
           in if month \<le> 0 \<or> 12 < month then None
              else if day < 1 \<or> daysIn month year < day then None
              else Some (year, month, day))"
| "parseDate _ = None"

section \<open>The data model (package models)\<close>

type_synonym Time = int

record Set_rec =
  Reps :: int
  Weight :: "real option"

record Exercise =
  Name :: string
  Sets :: "Set_rec list"

record Workout =
  ID :: int
  Title :: string
  Date :: string
  Notes :: string
  Exercises :: "Exercise list"
  CreatedAt :: Time
  UpdatedAt :: Time

record CreateWorkoutRequest =
  cTitle :: string
  cDate :: string
  cNotes :: string
  cExercises :: "Exercise list"

record UpdateWorkoutRequest =
  uTitle :: "string option"
  uDate :: "string option"
  uNotes :: "string option"
  uExercises :: "Exercise list option"

datatype payload =
    StatusOk
  | WorkoutList "Workout list"
  | WorkoutBody Workout
  | APIError string
  | NoBody

type_synonym response = "nat \<times> payload"

section \<open>The store (package store)\<close>

record WorkoutStore =
  nextID :: int
  workouts :: "(int \<times> Workout) list"

datatype store_error = NotFound

text \<open>Go's \<open>int\<close> is 64 bits wide on the targets considered; \<open>++\<close> wraps around.\<close>

definition int_wrap :: "int \<Rightarrow> int" where
  "int_wrap x = (x + 2 ^ 63) mod 2 ^ 64 - 2 ^ 63"

definition NewWorkoutStore :: WorkoutStore where
  "NewWorkoutStore = \<lparr>nextID = 1, workouts = []\<rparr>"

definition Create :: "WorkoutStore \<Rightarrow> Time \<Rightarrow> Workout \<Rightarrow> Workout \<times> WorkoutStore" where
  "Create s now w0 =
     (let w = w0\<lparr>ID := nextID s, CreatedAt := now, UpdatedAt := now\<rparr>
      in (w, s\<lparr>workouts := AList.update (ID w) w (workouts s),
               nextID := int_wrap (nextID s + 1)\<rparr>))"

text \<open>Go leaves the order of a map iteration open; the model lists the records in the
  order of the association list.\<close>

definition List_workouts :: "WorkoutStore \<Rightarrow> Workout list" where
  "List_workouts s = map snd (workouts s)"

definition Get :: "WorkoutStore \<Rightarrow> int \<Rightarrow> Workout option" where
  "Get s wid = map_of (workouts s) wid"

definition Update ::
  "WorkoutStore \<Rightarrow> Time \<Rightarrow> int \<Rightarrow> (Workout \<Rightarrow> Workout) \<Rightarrow> (store_error + Workout) \<times> WorkoutStore"
where
  "Update s now wid upd =
     (case map_of (workouts s) wid of
        None \<Rightarrow> (Inl NotFound, s)
      | Some cur0 \<Rightarrow>
          (let cur = (upd cur0)\<lparr>UpdatedAt := now\<rparr>
           in (Inr cur, s\<lparr>workouts := AList.update wid cur (workouts s)\<rparr>)))"

definition Delete :: "WorkoutStore \<Rightarrow> int \<Rightarrow> bool \<times> WorkoutStore" where
  "Delete s wid =
     (case map_of (workouts s) wid of
        None \<Rightarrow> (False, s)
      | Some _ \<Rightarrow> (True, s\<lparr>workouts := AList.delete wid (workouts s)\<rparr>))"

section \<open>The handlers (package handlers)\<close>

definition WriteJSON :: "nat \<Rightarrow> payload \<Rightarrow> response" where
  "WriteJSON status p = (status, p)"

definition WriteError :: "nat \<Rightarrow> string \<Rightarrow> response" where
  "WriteError status msg = WriteJSON status (APIError msg)"

fun validateSets :: "string \<Rightarrow> nat \<Rightarrow> Set_rec list \<Rightarrow> string option" where
  "validateSets name si [] = None"
| "validateSets name si (st # rest) =
     (if Reps st \<le> 0 then
        Some (''reps must be > 0 for exercise: '' @ name @ '', set index '' @ Itoa (int si))
      else if (case Weight st of None \<Rightarrow> False | Some w \<Rightarrow> w < 0) then
        Some (''weight must be >= 0 for exercise: '' @ name @ '', set index '' @ Itoa (int si))
      else validateSets name (Suc si) rest)"

fun validateExercises_from :: "nat \<Rightarrow> Exercise list \<Rightarrow> string" where
  "validateExercises_from i [] = ''''"
| "validateExercises_from i (ex # rest) =
     (let name = TrimSpace (Name ex)
      in if name = '''' then ''exercise name is required (at index '' @ Itoa (int i) @ '')''
         else if length (Sets ex) = 0 then
           ''exercise sets must have at least 1 set for: '' @ name
         else (case validateSets name 0 (Sets ex) of
                 Some err \<Rightarrow> err
               | None \<Rightarrow> validateExercises_from (Suc i) rest))"

definition validateExercises :: "Exercise list \<Rightarrow> string" where
  "validateExercises exercises = validateExercises_from 0 exercises"

definition parseWorkoutID :: "string \<Rightarrow> int option" where
  "parseWorkoutID path =
     (let parts = Split (Trim path ''/'') CHR ''/''
      in if length parts \<noteq> 2 \<or> parts ! 0 \<noteq> ''workouts'' then None
         else (case Atoi (parts ! 1) of
                 None \<Rightarrow> None
               | Some wid \<Rightarrow> if wid \<le> 0 then None else Some wid))"

definition HealthHandler :: "string \<Rightarrow> response" where
  "HealthHandler method = WriteJSON 200 StatusOk"

text \<open>
  A handler is modelled as one atomic step on the store: it takes the store, the
  reading \<open>time.Now()\<close> gives during the request, the method, the path where the
  handler reads it, and the outcome of \<open>httpjson.ReadJSON\<close> on the body (\<open>None\<close> when
  decoding fails); it returns the response written and the store afterwards.
\<close>

text \<open>WorkoutsHandler.ServeHTTP, POST: the three \<open>strings.TrimSpace\<close> assignments.\<close>

definition trimCreate :: "CreateWorkoutRequest \<Rightarrow> CreateWorkoutRequest" where
  "trimCreate req =
     req\<lparr>cTitle := TrimSpace (cTitle req), cDate := TrimSpace (cDate req),
         cNotes := TrimSpace (cNotes req)\<rparr>"

text \<open>WorkoutsHandler.ServeHTTP, POST: the four checks on the trimmed request, in
  the order of the source; \<open>Some msg\<close> when the handler writes the error 400 with
  \<open>msg\<close> and returns.\<close>

definition createChecks :: "CreateWorkoutRequest \<Rightarrow> string option" where
  "createChecks req =
     (if cTitle req = '''' then Some ''title is required''
      else if cDate req = '''' then Some ''date is required (YYYY-MM-DD)''
      else if parseDate (cDate req) = None then Some ''date must be YYYY-MM-DD''
      else if validateExercises (cExercises req) \<noteq> '''' then
        Some (validateExercises (cExercises req))
      else None)"

definition WorkoutsHandler ::
  "WorkoutStore \<Rightarrow> Time \<Rightarrow> string \<Rightarrow> CreateWorkoutRequest option \<Rightarrow> response \<times> WorkoutStore"
where
  "WorkoutsHandler s now method body =
     (if method = ''GET'' then (WriteJSON 200 (WorkoutList (List_workouts s)), s)
      else if method = ''POST'' then
        (case body of
           None \<Rightarrow> (WriteError 400 ''Invalid JSON'', s)
         | Some req0 \<Rightarrow>
             (let req = trimCreate req0
              in case createChecks req of
                   Some msg \<Rightarrow> (WriteError 400 msg, s)
                 | None \<Rightarrow>
                     (let wk = \<lparr>ID = 0, Title = cTitle req, Date = cDate req,
                                Notes = cNotes req, Exercises = cExercises req,
                                CreatedAt = 0, UpdatedAt = 0\<rparr>;
                          (created, s') = Create s now wk
                      in (WriteJSON 201 (WorkoutBody created), s'))))
      else (WriteError 405 ''Method not allowed'', s))"

text \<open>WorkoutByIDHandler.ServeHTTP, PUT: the copy of the current record with the
  fields present in the request written over it.\<close>

definition applyPatch :: "Workout \<Rightarrow> UpdateWorkoutRequest \<Rightarrow> Workout" where
  "applyPatch cur req =
     (let u1 = (case uTitle req of None \<Rightarrow> cur | Some t \<Rightarrow> cur\<lparr>Title := TrimSpace t\<rparr>);
          u2 = (case uDate req of None \<Rightarrow> u1 | Some d \<Rightarrow> u1\<lparr>Date := TrimSpace d\<rparr>);
          u3 = (case uNotes req of None \<Rightarrow> u2 | Some n \<Rightarrow> u2\<lparr>Notes := TrimSpace n\<rparr>);
          u4 = (case uExercises req of None \<Rightarrow> u3 | Some exs \<Rightarrow> u3\<lparr>Exercises := exs\<rparr>)
      in u4)"

text \<open>WorkoutByIDHandler.ServeHTTP, PUT: title and date of the candidate are trimmed
  once more before the checks.\<close>

definition trimUpdated :: "Workout \<Rightarrow> Workout" where
  "trimUpdated updated =
     updated\<lparr>Title := TrimSpace (Title updated), Date := TrimSpace (Date updated)\<rparr>"

text \<open>WorkoutByIDHandler.ServeHTTP, PUT: the four checks on the candidate.\<close>

definition updateChecks :: "Workout \<Rightarrow> string option" where
  "updateChecks updated =
     (if Title updated = '''' then Some ''title cannot be empty''
      else if Date updated = '''' then Some ''date cannot be empty''
      else if parseDate (Date updated) = None then Some ''date must be YYYY-MM-DD''
      else if validateExercises (Exercises updated) \<noteq> '''' then
        Some (validateExercises (Exercises updated))
      else None)"

definition WorkoutByIDHandler ::
  "WorkoutStore \<Rightarrow> Time \<Rightarrow> string \<Rightarrow> string \<Rightarrow> UpdateWorkoutRequest option
     \<Rightarrow> response \<times> WorkoutStore"
where
  "WorkoutByIDHandler s now method path body =
     (case parseWorkoutID path of
        None \<Rightarrow> (WriteError 404 ''Not found'', s)
      | Some wid \<Rightarrow>
          if method = ''GET'' then
            (case Get s wid of
               None \<Rightarrow> (WriteError 404 ''Workout not found'', s)
             | Some wk \<Rightarrow> (WriteJSON 200 (WorkoutBody wk), s))
          else if method = ''PUT'' then
            (case body of
               None \<Rightarrow> (WriteError 400 ''Invalid JSON'', s)
             | Some req \<Rightarrow>
                 (case Get s wid of
                    None \<Rightarrow> (WriteError 404 ''Workout not found'', s)
                  | Some cur \<Rightarrow>
                      (let updated = trimUpdated (applyPatch cur req)
                       in case updateChecks updated of
                            Some msg \<Rightarrow> (WriteError 400 msg, s)
                          | None \<Rightarrow>
                              (case Update s now wid (\<lambda>cur. updated) of
                                 (Inl err, s') \<Rightarrow> (WriteError 404 ''Workout not found'', s')
                               | (Inr final, s') \<Rightarrow> (WriteJSON 200 (WorkoutBody final), s')))))
          else if method = ''DELETE'' then
            (case Delete s wid of
               (False, s') \<Rightarrow> (WriteError 404 ''Workout not found'', s')
             | (True, s') \<Rightarrow> ((204, NoBody), s'))
          else (WriteError 405 ''Method not allowed'', s))"

section \<open>Runs\<close>

text \<open>A run of the store: the operations applied one after another, with the IDs
  that \<open>Create\<close> returned, in the order of the calls.\<close>

datatype store_op =
    OpCreate Time Workout
  | OpUpdate Time int "Workout \<Rightarrow> Workout"
  | OpDelete int

fun run_ops :: "WorkoutStore \<Rightarrow> store_op list \<Rightarrow> int list \<times> WorkoutStore" where
  "run_ops s [] = ([], s)"
| "run_ops s (OpCreate now w # ops) =
     (let (created, s') = Create s now w; (ids, s'') = run_ops s' ops
      in (ID created # ids, s''))"
| "run_ops s (OpUpdate now wid upd # ops) = run_ops (snd (Update s now wid upd)) ops"
| "run_ops s (OpDelete wid # ops) = run_ops (snd (Delete s wid)) ops"

text \<open>A run of the API: requests served one after another, each by the handler the
  router registers for its path, each with the clock reading of its request.\<close>

datatype call =
    Health string
  | Workouts string "CreateWorkoutRequest option"
  | WorkoutByID string string "UpdateWorkoutRequest option"

fun serve :: "WorkoutStore \<Rightarrow> Time \<times> call \<Rightarrow> response \<times> WorkoutStore" where
  "serve s (now, Health method) = (HealthHandler method, s)"
| "serve s (now, Workouts method body) = WorkoutsHandler s now method body"
| "serve s (now, WorkoutByID method path body) = WorkoutByIDHandler s now method path body"

fun serve_all :: "WorkoutStore \<Rightarrow> (Time \<times> call) list \<Rightarrow> WorkoutStore" where
  "serve_all s [] = s"
| "serve_all s (c # cs) = serve_all (snd (serve s c)) cs"

text \<open>The request \<open>httpjson.ReadJSON\<close> decodes from the body \<open>{}\<close>: every pointer
  is nil.\<close>

definition empty_patch :: UpdateWorkoutRequest where
  "empty_patch = \<lparr>uTitle = None, uDate = None, uNotes = None, uExercises = None\<rparr>"

text \<open>The create request that carries the fields of an update candidate: what the
  create path would be given to check the same title, date, notes and exercises.\<close>

definition as_request :: "Workout \<Rightarrow> CreateWorkoutRequest" where
  "as_request u =
     \<lparr>cTitle = Title u, cDate = Date u, cNotes = Notes u, cExercises = Exercises u\<rparr>"

text \<open>
  Exercise validation as the specification words it: the exercises are taken in list
  order and the first failure wins. The exercise at position \<open>i\<close> fails on a blank
  trimmed name (the message names \<open>i\<close>), then on an empty list of sets (the message
  names the exercise), then on its first failing set; the set at position \<open>j\<close> fails on
  reps that are not positive, then on a weight that is present and negative (both
  messages name the exercise and \<open>j\<close>). No failure is the empty message.
\<close>

primrec first_failure :: "string option list \<Rightarrow> string option" where
  "first_failure [] = None"
| "first_failure (r # rs) = (case r of Some msg \<Rightarrow> Some msg | None \<Rightarrow> first_failure rs)"

definition spec_set_failure :: "string \<Rightarrow> nat \<Rightarrow> Set_rec \<Rightarrow> string option" where
  "spec_set_failure name j st =
     (if \<not> 0 < Reps st then
        Some (''reps must be > 0 for exercise: '' @ name @ '', set index '' @ Itoa (int j))
      else if Weight st \<noteq> None \<and> \<not> 0 \<le> the (Weight st) then
        Some (''weight must be >= 0 for exercise: '' @ name @ '', set index '' @ Itoa (int j))
      else None)"

definition spec_exercise_failure :: "nat \<Rightarrow> Exercise \<Rightarrow> string option" where
  "spec_exercise_failure i ex =
     (if TrimSpace (Name ex) = '''' then
        Some (''exercise name is required (at index '' @ Itoa (int i) @ '')'')
      else if Sets ex = [] then
        Some (''exercise sets must have at least 1 set for: '' @ TrimSpace (Name ex))
      else first_failure
             (map (\<lambda>(j, st). spec_set_failure (TrimSpace (Name ex)) j st)
                (enumerate 0 (Sets ex))))"

definition spec_validateExercises :: "Exercise list \<Rightarrow> string" where
  "spec_validateExercises exercises =
     (case first_failure (map (\<lambda>(i, ex). spec_exercise_failure i ex) (enumerate 0 exercises)) of
        None \<Rightarrow> ''''
      | Some msg \<Rightarrow> msg)"

section \<open>Invariants of the stores the API reaches\<close>

text \<open>A record the handlers can have stored: its title is trimmed and it passes the
  four checks. In a store the handlers can have built, every record is such a record
  and carries the key it is stored under as its ID.\<close>

definition record_ok :: "Workout \<Rightarrow> bool" where
  "record_ok w \<longleftrightarrow> TrimSpace (Title w) = Title w \<and> updateChecks w = None"

definition store_ok :: "WorkoutStore \<Rightarrow> bool" where
  "store_ok s \<longleftrightarrow> (\<forall>k w. Get s k = Some w \<longrightarrow> record_ok w \<and> ID w = k)"

text \<open>Every updatedAt in the store is one of the given clock readings.\<close>

definition stamps_in :: "Time set \<Rightarrow> WorkoutStore \<Rightarrow> bool" where
  "stamps_in T s \<longleftrightarrow> (\<forall>k w. Get s k = Some w \<longrightarrow> UpdatedAt w \<in> T)"

text \<open>What a request can do to the store: nothing, write one checked record stamped
  with the time of the request under its own ID, or delete one key.\<close>

definition writes :: "Time \<Rightarrow> WorkoutStore \<Rightarrow> WorkoutStore \<Rightarrow> bool" where
  "writes now s s' \<longleftrightarrow>
     s' = s
     \<or> (\<exists>k w n. record_ok w \<and> ID w = k \<and> UpdatedAt w = now \<and>
           s' = s\<lparr>workouts := AList.update k w (workouts s), nextID := n\<rparr>)
     \<or> (\<exists>k. s' = s\<lparr>workouts := AList.delete k (workouts s)\<rparr>)"

section \<open>Concrete stores and requests used in the examples\<close>

definition store1 :: WorkoutStore where
  "store1 = \<lparr>nextID = 2, workouts =
     [(1, \<lparr>ID = 1, Title = ''A'', Date = ''2025-01-01'', Notes = '''', Exercises = [],
            CreatedAt = 5, UpdatedAt = 5\<rparr>)]\<rparr>"

definition bad_patch :: UpdateWorkoutRequest where
  "bad_patch =
     \<lparr>uTitle = Some ''B'', uDate = Some ''2025-13-40'', uNotes = None, uExercises = None\<rparr>"

definition date_missing :: CreateWorkoutRequest where
  "date_missing = \<lparr>cTitle = ''Leg Day'', cDate = ''  '', cNotes = '''', cExercises = []\<rparr>"

definition date_malformed :: CreateWorkoutRequest where
  "date_malformed =
     \<lparr>cTitle = ''Leg Day'', cDate = ''2025-13-40'', cNotes = '''', cExercises = []\<rparr>"

definition wk_a :: Workout where
  "wk_a = \<lparr>ID = 77, Title = ''A'', Date = ''2025-01-01'', Notes = '''', Exercises = [],
            CreatedAt = 0, UpdatedAt = 0\<rparr>"

definition ops_create_delete_create :: "store_op list" where
  "ops_create_delete_create = [OpCreate 5 wk_a, OpDelete 1, OpCreate 6 wk_a]"

definition req_a :: CreateWorkoutRequest where
  "req_a = \<lparr>cTitle = ''A'', cDate = ''2025-01-01'', cNotes = '''', cExercises = []\<rparr>"

definition calls1 :: "(Time \<times> call) list" where
  "calls1 = [(5, Workouts ''POST'' (Some req_a))]"

definition notes_patch :: UpdateWorkoutRequest where
  "notes_patch = \<lparr>uTitle = None, uDate = None, uNotes = Some '' easy '', uExercises = None\<rparr>"

definition req_padded :: CreateWorkoutRequest where
  "req_padded =
     \<lparr>cTitle = '' Leg Day '', cDate = ''2025-01-01'', cNotes = '' heavy '',
      cExercises = [\<lparr>Name = '' Squat '', Sets = [\<lparr>Reps = 5, Weight = None\<rparr>]\<rparr>]\<rparr>"

definition created_padded :: Workout where
  "created_padded =
     \<lparr>ID = 1, Title = ''Leg Day'', Date = ''2025-01-01'', Notes = ''heavy'',
      Exercises = [\<lparr>Name = '' Squat '', Sets = [\<lparr>Reps = 5, Weight = None\<rparr>]\<rparr>],
      CreatedAt = 3, UpdatedAt = 3\<rparr>"

definition blank_title_patch :: UpdateWorkoutRequest where
  "blank_title_patch = \<lparr>uTitle = Some ''  '', uDate = None, uNotes = None, uExercises = None\<rparr>"

definition bad_reps_patch :: UpdateWorkoutRequest where
  "bad_reps_patch =
     \<lparr>uTitle = None, uDate = None, uNotes = None,
      uExercises = Some [\<lparr>Name = ''Squat'', Sets = [\<lparr>Reps = 0, Weight = None\<rparr>]\<rparr>]\<rparr>"

definition exs_weight_then_name :: "Exercise list" where
  "exs_weight_then_name =
     [\<lparr>Name = '' Squat '', Sets = [\<lparr>Reps = 5, Weight = None\<rparr>, \<lparr>Reps = 5, Weight = Some (- 1)\<rparr>]\<rparr>,
      \<lparr>Name = ''  '', Sets = []\<rparr>]"

definition title_and_date_missing :: CreateWorkoutRequest where
  "title_and_date_missing = \<lparr>cTitle = '' '', cDate = '''', cNotes = '''', cExercises = []\<rparr>"

section \<open>The outcome of the checks decides the response\<close>

lemma updateChecks_Some_iff:
  "(\<exists>msg. updateChecks u = Some msg) \<longleftrightarrow>
     Title u = '''' \<or> Date u = '''' \<or> parseDate (Date u) = None \<or>
     validateExercises (Exercises u) \<noteq> ''''"
  by (simp add: updateChecks_def)

lemma updateChecks_None_iff:
  "updateChecks u = None \<longleftrightarrow>
     Title u \<noteq> '''' \<and> Date u \<noteq> '''' \<and> parseDate (Date u) \<noteq> None \<and>
     validateExercises (Exercises u) = ''''"
  by (simp add: updateChecks_def)

lemma put_rejected:
  assumes "parseWorkoutID path = Some wid" and "Get s wid = Some cur"
    and "updateChecks (trimUpdated (applyPatch cur req)) = Some msg"
  shows "WorkoutByIDHandler s now ''PUT'' path (Some req) = ((400, APIError msg), s)"
  using assms by (simp add: WorkoutByIDHandler_def WriteError_def WriteJSON_def)

lemma put_accepted:
  assumes "parseWorkoutID path = Some wid" and "Get s wid = Some cur"
    and "updateChecks (trimUpdated (applyPatch cur req)) = None"
  shows "WorkoutByIDHandler s now ''PUT'' path (Some req) =
     ((200, WorkoutBody ((trimUpdated (applyPatch cur req))\<lparr>UpdatedAt := now\<rparr>)),
      s\<lparr>workouts := AList.update wid ((trimUpdated (applyPatch cur req))\<lparr>UpdatedAt := now\<rparr>)
          (workouts s)\<rparr>)"
  using assms
  by (simp add: WorkoutByIDHandler_def WriteError_def WriteJSON_def Update_def Get_def Let_def)

lemma post_rejected:
  "createChecks (trimCreate req) = Some msg \<Longrightarrow>
   WorkoutsHandler s now ''POST'' (Some req) = ((400, APIError msg), s)"
  by (simp add: WorkoutsHandler_def WriteError_def WriteJSON_def Let_def)

section \<open>Facts about trimming and dates\<close>

declare TrimLeft.simps [simp del] TrimRight.simps [simp del]

lemma unicode_space_nonempty: "w \<in> set unicode_space \<Longrightarrow> w \<noteq> []"
  by (auto simp: unicode_space_def)

lemma leading_space_0_iff:
  "leading_space s = 0 \<longleftrightarrow> (\<forall>w\<in>set unicode_space. \<not> prefix w s)"
  by (auto simp: leading_space_def find_None_iff find_Some_iff unicode_space_nonempty
      split: option.splits)

lemma trailing_space_0_iff:
  "trailing_space s = 0 \<longleftrightarrow> (\<forall>w\<in>set unicode_space. \<not> suffix w s)"
  by (auto simp: trailing_space_def find_None_iff find_Some_iff unicode_space_nonempty
      split: option.splits)

lemma TrimLeft_fixed: "leading_space s = 0 \<Longrightarrow> TrimLeft s = s"
  by (simp add: TrimLeft.simps)

lemma TrimRight_fixed: "trailing_space s = 0 \<Longrightarrow> TrimRight s = s"
  by (simp add: TrimRight.simps)

lemma leading_space_TrimLeft: "leading_space (TrimLeft s) = 0"
proof (induction s rule: TrimLeft.induct)
  case (1 s)
  show ?case
  proof (cases "leading_space s = 0")
    case True
    then show ?thesis by (simp add: TrimLeft_fixed)
  next
    case False
    then have "TrimLeft s = TrimLeft (drop (leading_space s) s)"
      by (simp add: TrimLeft.simps [of s])
    with 1 False show ?thesis by simp
  qed
qed

lemma trailing_space_TrimRight: "trailing_space (TrimRight s) = 0"
proof (induction s rule: TrimRight.induct)
  case (1 s)
  show ?case
  proof (cases "trailing_space s = 0")
    case True
    then show ?thesis by (simp add: TrimRight_fixed)
  next
    case False
    then have "TrimRight s = TrimRight (take (length s - trailing_space s) s)"
      by (simp add: TrimRight.simps [of s])
    with 1 False show ?thesis by simp
  qed
qed

lemma TrimRight_prefix: "prefix (TrimRight s) s"
proof (induction s rule: TrimRight.induct)
  case (1 s)
  show ?case
  proof (cases "trailing_space s = 0")
    case True
    then show ?thesis by (simp add: TrimRight_fixed)
  next
    case False
    then have e: "TrimRight s = TrimRight (take (length s - trailing_space s) s)"
      by (simp add: TrimRight.simps [of s])
    have "prefix (TrimRight (take (length s - trailing_space s) s))
            (take (length s - trailing_space s) s)"
      using 1 False by simp
    then have "prefix (TrimRight (take (length s - trailing_space s) s)) s"
      using take_is_prefix prefix_order.trans by blast
    with e show ?thesis by simp
  qed
qed

lemma leading_space_TrimSpace: "leading_space (TrimSpace s) = 0"
proof -
  have "\<forall>w\<in>set unicode_space. \<not> prefix w (TrimLeft s)"
    using leading_space_TrimLeft leading_space_0_iff by blast
  moreover have "prefix (TrimRight (TrimLeft s)) (TrimLeft s)"
    by (rule TrimRight_prefix)
  ultimately have "\<forall>w\<in>set unicode_space. \<not> prefix w (TrimRight (TrimLeft s))"
    using prefix_order.trans by blast
  then show ?thesis by (simp add: leading_space_0_iff TrimSpace_def)
qed

lemma TrimSpace_fixed: "leading_space s = 0 \<Longrightarrow> trailing_space s = 0 \<Longrightarrow> TrimSpace s = s"
  by (simp add: TrimSpace_def TrimLeft_fixed TrimRight_fixed)

lemma TrimSpace_idem: "TrimSpace (TrimSpace s) = TrimSpace s"
proof (rule TrimSpace_fixed)
  show "leading_space (TrimSpace s) = 0" by (rule leading_space_TrimSpace)
  show "trailing_space (TrimSpace s) = 0"
    by (simp add: TrimSpace_def trailing_space_TrimRight)
qed

lemma digit_not_space_edge:
  "isDigit c \<Longrightarrow> w \<in> set unicode_space \<Longrightarrow> hd w \<noteq> c \<and> last w \<noteq> c"
  by (auto simp: isDigit_def unicode_space_def)

lemma leading_space_digit: "isDigit c \<Longrightarrow> leading_space (c # cs) = 0"
proof -
  assume d: "isDigit c"
  have "\<not> prefix w (c # cs)" if w: "w \<in> set unicode_space" for w
  proof
    assume "prefix w (c # cs)"
    moreover have "w \<noteq> []" using w by (rule unicode_space_nonempty)
    ultimately have "hd w = c" by (cases w) auto
    with digit_not_space_edge [OF d w] show False by simp
  qed
  then show ?thesis by (simp add: leading_space_0_iff)
qed

lemma trailing_space_digit: "isDigit c \<Longrightarrow> trailing_space (cs @ [c]) = 0"
proof -
  assume d: "isDigit c"
  have "\<not> suffix w (cs @ [c])" if w: "w \<in> set unicode_space" for w
  proof
    assume "suffix w (cs @ [c])"
    moreover have "w \<noteq> []" using w by (rule unicode_space_nonempty)
    ultimately have "last w = c" by (auto simp: suffix_def) (metis last_appendR last_snoc)
    with digit_not_space_edge [OF d w] show False by simp
  qed
  then show ?thesis by (simp add: trailing_space_0_iff)
qed

lemma parseDate_shape:
  assumes "parseDate d \<noteq> None"
  shows "\<exists>c cs c'. d = c # cs @ [c'] \<and> isDigit c \<and> isDigit c'"
  using assms
proof (cases d rule: parseDate.cases)
  case (1 y1 y2 y3 y4 s1 m1 m2 s2 d1 d2)
  with assms have "isDigit y1 \<and> isDigit d2"
    by (auto split: if_splits)
  moreover have "d = y1 # [y2, y3, y4, s1, m1, m2, s2, d1] @ [d2]"
    using 1 by simp
  ultimately show ?thesis by blast
qed (use assms in auto)

lemma parseDate_trimmed:
  assumes "parseDate d \<noteq> None"
  shows "TrimSpace d = d"
proof -
  from parseDate_shape [OF assms] obtain c cs c'
    where d: "d = c # cs @ [c']" and c: "isDigit c" and c': "isDigit c'" by blast
  have "leading_space d = 0" using d c leading_space_digit by simp
  moreover have "trailing_space d = 0"
    using d c' trailing_space_digit [of c' "c # cs"] by simp
  ultimately show ?thesis by (rule TrimSpace_fixed)
qed

section \<open>The handlers keep the invariants\<close>

lemma store_ok_New: "store_ok NewWorkoutStore"
  by (simp add: store_ok_def NewWorkoutStore_def Get_def)

lemma stamps_in_New: "stamps_in {} NewWorkoutStore"
  by (simp add: stamps_in_def NewWorkoutStore_def Get_def)

lemma updateChecks_UpdatedAt [simp]:
  "updateChecks (w\<lparr>UpdatedAt := t\<rparr>) = updateChecks w"
  by (simp add: updateChecks_def)

lemma record_ok_trimUpdated:
  "updateChecks (trimUpdated u) = None \<Longrightarrow> record_ok ((trimUpdated u)\<lparr>UpdatedAt := t\<rparr>)"
  by (simp add: record_ok_def trimUpdated_def TrimSpace_idem)

lemma ID_applyPatch [simp]: "ID (trimUpdated (applyPatch cur req)) = ID cur"
  by (simp add: trimUpdated_def applyPatch_def Let_def split: option.splits)

lemma createChecks_record_ok:
  assumes "createChecks (trimCreate req) = None"
  shows "record_ok \<lparr>ID = i, Title = cTitle (trimCreate req), Date = cDate (trimCreate req),
           Notes = cNotes (trimCreate req), Exercises = cExercises (trimCreate req),
           CreatedAt = t, UpdatedAt = t'\<rparr>"
  using assms
  by (simp add: record_ok_def createChecks_def updateChecks_def trimCreate_def TrimSpace_idem
      split: if_splits)

lemma writes_refl: "writes now s s"
  by (simp add: writes_def)

lemma writes_WorkoutsHandler: "writes now s (snd (WorkoutsHandler s now method body))"
proof (cases "method = ''POST'' \<and> body \<noteq> None \<and> createChecks (trimCreate (the body)) = None")
  case False
  then have "snd (WorkoutsHandler s now method body) = s"
    by (auto simp: WorkoutsHandler_def Let_def split: option.splits)
  then show ?thesis by (simp add: writes_def)
next
  case True
  then obtain req where b: "body = Some req" and c: "createChecks (trimCreate req) = None"
    by auto
  let ?w = "\<lparr>ID = nextID s, Title = cTitle (trimCreate req), Date = cDate (trimCreate req),
           Notes = cNotes (trimCreate req), Exercises = cExercises (trimCreate req),
           CreatedAt = now, UpdatedAt = now\<rparr>"
  have "snd (WorkoutsHandler s now method body) =
      s\<lparr>workouts := AList.update (nextID s) ?w (workouts s), nextID := int_wrap (nextID s + 1)\<rparr>"
    using True b c by (simp add: WorkoutsHandler_def Let_def Create_def)
  moreover have "record_ok ?w" using c by (rule createChecks_record_ok)
  moreover have "ID ?w = nextID s \<and> UpdatedAt ?w = now" by simp
  ultimately show ?thesis unfolding writes_def by blast
qed

lemma writes_WorkoutByIDHandler:
  assumes "store_ok s"
  shows "writes now s (snd (WorkoutByIDHandler s now method path body))"
proof (cases "parseWorkoutID path")
  case None
  then show ?thesis by (simp add: WorkoutByIDHandler_def writes_def)
next
  case (Some wid)
  consider (put) "method = ''PUT''" | (del) "method = ''DELETE''"
    | (other) "method \<noteq> ''PUT''" "method \<noteq> ''DELETE''" by blast
  then show ?thesis
  proof cases
    case put
    show ?thesis
    proof (cases body)
      case None
      with Some put show ?thesis by (simp add: WorkoutByIDHandler_def writes_def)
    next
      case b: (Some req)
      show ?thesis
      proof (cases "Get s wid")
        case None
        with Some put b show ?thesis by (simp add: WorkoutByIDHandler_def writes_def)
      next
        case g: (Some cur)
        let ?u = "trimUpdated (applyPatch cur req)"
        show ?thesis
        proof (cases "updateChecks ?u")
          case None
          have i: "ID (?u\<lparr>UpdatedAt := now\<rparr>) = wid \<and> UpdatedAt (?u\<lparr>UpdatedAt := now\<rparr>) = now"
            using assms g by (simp add: store_ok_def)
          have e: "snd (WorkoutByIDHandler s now method path body) =
              s\<lparr>workouts := AList.update wid (?u\<lparr>UpdatedAt := now\<rparr>) (workouts s),
                nextID := nextID s\<rparr>"
            using put_accepted [OF Some g None] put b by simp
          have r: "record_ok (?u\<lparr>UpdatedAt := now\<rparr>)"
            using None by (rule record_ok_trimUpdated)
          from i e r show ?thesis unfolding writes_def by blast
        next
          case (Some msg)
          then show ?thesis
            using put_rejected [OF \<open>parseWorkoutID path = Some wid\<close> g Some] put b
            by (simp add: writes_def)
        qed
      qed
    qed
  next
    case del
    have "snd (WorkoutByIDHandler s now method path body) = s
        \<or> snd (WorkoutByIDHandler s now method path body) =
            s\<lparr>workouts := AList.delete wid (workouts s)\<rparr>"
      using del Some by (simp add: WorkoutByIDHandler_def Delete_def split: option.splits)
    then show ?thesis unfolding writes_def by blast
  next
    case other
    then have "snd (WorkoutByIDHandler s now method path body) = s"
      using Some by (simp add: WorkoutByIDHandler_def split: option.splits)
    then show ?thesis by (simp add: writes_def)
  qed
qed

lemma writes_serve: "store_ok s \<Longrightarrow> writes (fst c) s (snd (serve s c))"
proof (cases c)
  case (Pair now cl)
  assume "store_ok s"
  then show ?thesis
    unfolding Pair
    by (cases cl) (simp_all add: writes_WorkoutsHandler writes_WorkoutByIDHandler writes_refl)
qed

lemma store_ok_writes: "store_ok s \<Longrightarrow> writes now s s' \<Longrightarrow> store_ok s'"
  unfolding writes_def
  by (auto simp: store_ok_def Get_def update_conv' delete_conv' split: if_splits)

lemma stamps_in_writes: "stamps_in T s \<Longrightarrow> writes now s s' \<Longrightarrow> stamps_in (insert now T) s'"
  unfolding writes_def
  by (auto simp: stamps_in_def Get_def update_conv' delete_conv' split: if_splits)

lemma store_ok_serve_all: "store_ok s \<Longrightarrow> store_ok (serve_all s cs)"
proof (induction cs arbitrary: s)
  case Nil
  then show ?case by simp
next
  case (Cons c cs)
  have "store_ok (snd (serve s c))"
    using Cons.prems writes_serve store_ok_writes by blast
  then show ?case using Cons.IH by simp
qed

lemma stamps_in_serve_all:
  "store_ok s \<Longrightarrow> stamps_in T s \<Longrightarrow> stamps_in (T \<union> fst ` set cs) (serve_all s cs)"
proof (induction cs arbitrary: s T)
  case Nil
  then show ?case by simp
next
  case (Cons c cs)
  have w: "writes (fst c) s (snd (serve s c))"
    using Cons.prems(1) by (rule writes_serve)
  have "store_ok (snd (serve s c))"
    using Cons.prems(1) w by (rule store_ok_writes)
  moreover have "stamps_in (insert (fst c) T) (snd (serve s c))"
    using Cons.prems(2) w by (rule stamps_in_writes)
  ultimately have
    "stamps_in (insert (fst c) T \<union> fst ` set cs) (serve_all (snd (serve s c)) cs)"
    by (rule Cons.IH)
  then show ?case by simp
qed

section \<open>Facts shared by the update theorems\<close>

lemma reached_store_ok: "store_ok (serve_all NewWorkoutStore calls)"
  by (simp add: store_ok_serve_all store_ok_New)

lemma reached_stamps: "stamps_in (fst ` set calls) (serve_all NewWorkoutStore calls)"
  using stamps_in_serve_all [OF store_ok_New stamps_in_New, of calls] by simp

lemma record_ok_Date: "record_ok w \<Longrightarrow> TrimSpace (Date w) = Date w"
  by (simp add: record_ok_def updateChecks_None_iff parseDate_trimmed)

lemma candidate_fields:
  assumes "record_ok cur" and "u = trimUpdated (applyPatch cur req)"
  shows "Title u = (case uTitle req of None \<Rightarrow> Title cur | Some t \<Rightarrow> TrimSpace t)"
    and "Date u = (case uDate req of None \<Rightarrow> Date cur | Some d \<Rightarrow> TrimSpace d)"
    and "Notes u = (case uNotes req of None \<Rightarrow> Notes cur | Some n \<Rightarrow> TrimSpace n)"
    and "Exercises u = (case uExercises req of None \<Rightarrow> Exercises cur | Some exs \<Rightarrow> exs)"
    and "ID u = ID cur" and "CreatedAt u = CreatedAt cur"
  using assms record_ok_Date [of cur]
  by (simp_all add: record_ok_def trimUpdated_def applyPatch_def Let_def TrimSpace_idem
      split: option.splits)

lemma put_200:
  assumes "parseWorkoutID path = Some wid" and "Get s wid = Some cur"
    and "WorkoutByIDHandler s now ''PUT'' path (Some req) = ((200, WorkoutBody final), s')"
  shows "final = (trimUpdated (applyPatch cur req))\<lparr>UpdatedAt := now\<rparr>
       \<and> s' = s\<lparr>workouts := AList.update wid final (workouts s)\<rparr>"
proof (cases "updateChecks (trimUpdated (applyPatch cur req))")
  case None
  from put_accepted [OF assms(1,2) None, of now] assms(3) show ?thesis by simp
next
  case (Some msg)
  from put_rejected [OF assms(1,2) Some, of now] assms(3) show ?thesis by simp
qed

lemma calls1_store: "serve_all NewWorkoutStore calls1 = store1"
  by code_simp

section \<open>Facts about exercise validation and the create path\<close>

lemma validateSets_None:
  "validateSets name si sets = None \<Longrightarrow>
   \<forall>st\<in>set sets. 0 < Reps st \<and> (\<forall>w. Weight st = Some w \<longrightarrow> 0 \<le> w)"
  by (induction sets arbitrary: si) (auto split: if_splits option.splits)

lemma validateSets_Some_nonempty: "validateSets name si sets = Some m \<Longrightarrow> m \<noteq> []"
  by (induction sets arbitrary: si) (auto split: if_splits)

lemma validateExercises_from_ok:
  "validateExercises_from i exs = '''' \<Longrightarrow>
   \<forall>ex\<in>set exs. TrimSpace (Name ex) \<noteq> '''' \<and> Sets ex \<noteq> [] \<and>
     (\<forall>st\<in>set (Sets ex). 0 < Reps st \<and> (\<forall>w. Weight st = Some w \<longrightarrow> 0 \<le> w))"
proof (induction exs arbitrary: i)
  case Nil
  then show ?case by simp
next
  case (Cons ex exs)
  from Cons.prems have n: "TrimSpace (Name ex) \<noteq> ''''" and s: "Sets ex \<noteq> []"
    by (auto simp: Let_def split: if_splits)
  from Cons.prems n s have v: "validateSets (TrimSpace (Name ex)) 0 (Sets ex) = None"
    and r: "validateExercises_from (Suc i) exs = ''''"
    by (auto simp: Let_def split: if_splits option.splits dest: validateSets_Some_nonempty)
  show ?case
    using n s validateSets_None [OF v] Cons.IH [OF r] by simp
qed

lemma post_201:
  assumes "WorkoutsHandler s now ''POST'' (Some req) = ((201, WorkoutBody created), s')"
  shows "createChecks (trimCreate req) = None
       \<and> created = \<lparr>ID = nextID s, Title = TrimSpace (cTitle req), Date = TrimSpace (cDate req),
           Notes = TrimSpace (cNotes req), Exercises = cExercises req,
           CreatedAt = now, UpdatedAt = now\<rparr>
       \<and> s' = s\<lparr>workouts := AList.update (nextID s) created (workouts s),
               nextID := int_wrap (nextID s + 1)\<rparr>"
proof (cases "createChecks (trimCreate req)")
  case None
  then show ?thesis
    using assms
    by (auto simp: WorkoutsHandler_def Let_def Create_def WriteJSON_def trimCreate_def)
next
  case (Some msg)
  from post_rejected [OF Some, of s now] assms show ?thesis by simp
qed

section \<open>The checks of the two paths side by side\<close>

lemma checks_agree:
  "updateChecks (trimUpdated u) = None \<longleftrightarrow> createChecks (trimCreate (as_request u)) = None"
  by (simp add: updateChecks_def createChecks_def trimUpdated_def trimCreate_def as_request_def)

lemma checks_same_message:
  "TrimSpace (Title u) \<noteq> '''' \<Longrightarrow> TrimSpace (Date u) \<noteq> '''' \<Longrightarrow>
   updateChecks (trimUpdated u) = createChecks (trimCreate (as_request u))"
  by (simp add: updateChecks_def createChecks_def trimUpdated_def trimCreate_def as_request_def)

lemma checks_title_messages:
  "TrimSpace (Title u) = '''' \<Longrightarrow>
   updateChecks (trimUpdated u) = Some ''title cannot be empty'' \<and>
   createChecks (trimCreate (as_request u)) = Some ''title is required''"
  by (simp add: updateChecks_def createChecks_def trimUpdated_def trimCreate_def as_request_def)

lemma checks_date_messages:
  "TrimSpace (Title u) \<noteq> '''' \<Longrightarrow> TrimSpace (Date u) = '''' \<Longrightarrow>
   updateChecks (trimUpdated u) = Some ''date cannot be empty'' \<and>
   createChecks (trimCreate (as_request u)) = Some ''date is required (YYYY-MM-DD)''"
  by (simp add: updateChecks_def createChecks_def trimUpdated_def trimCreate_def as_request_def)

lemma post_accepted:
  "createChecks (trimCreate req) = None \<Longrightarrow>
   fst (fst (WorkoutsHandler s now ''POST'' (Some req))) = 201"
  by (simp add: WorkoutsHandler_def Let_def WriteJSON_def split: prod.splits)

section \<open>Update atomicity\<close>

text \<open>
  C1. A PUT on an existing record builds the candidate \<open>updated\<close> from the stored
  record and the patch. When the candidate fails a check (empty title, empty date,
  a date \<open>time.Parse\<close> refuses, or a message from \<open>validateExercises\<close>), the handler
  answers 400 with the message of the first failing check and the store afterwards is
  the store before, whole. When the candidate passes every check, the handler answers
  200 and the store differs only in the record of that id, which is the candidate
  stamped with the time of the update.
\<close>

theorem update_rejected_store_unchanged:
  assumes "parseWorkoutID path = Some wid"
    and "Get s wid = Some cur"
    and "updated = trimUpdated (applyPatch cur req)"
  shows "(Title updated = '''' \<or> Date updated = '''' \<or> parseDate (Date updated) = None \<or>
          validateExercises (Exercises updated) \<noteq> '''' \<longrightarrow>
            (\<exists>msg. updateChecks updated = Some msg \<and>
               WorkoutByIDHandler s now ''PUT'' path (Some req) = ((400, APIError msg), s)))
       \<and> (Title updated \<noteq> '''' \<and> Date updated \<noteq> '''' \<and> parseDate (Date updated) \<noteq> None \<and>
          validateExercises (Exercises updated) = '''' \<longrightarrow>
            WorkoutByIDHandler s now ''PUT'' path (Some req) =
              ((200, WorkoutBody (updated\<lparr>UpdatedAt := now\<rparr>)),
               s\<lparr>workouts := AList.update wid (updated\<lparr>UpdatedAt := now\<rparr>) (workouts s)\<rparr>))"
proof (intro conjI impI)
  assume "Title updated = '''' \<or> Date updated = '''' \<or> parseDate (Date updated) = None \<or>
          validateExercises (Exercises updated) \<noteq> ''''"
  then obtain msg where m: "updateChecks updated = Some msg"
    using updateChecks_Some_iff by blast
  with assms have
    "WorkoutByIDHandler s now ''PUT'' path (Some req) = ((400, APIError msg), s)"
    by (simp add: put_rejected)
  with m show "\<exists>msg. updateChecks updated = Some msg \<and>
      WorkoutByIDHandler s now ''PUT'' path (Some req) = ((400, APIError msg), s)"
    by blast
next
  assume "Title updated \<noteq> '''' \<and> Date updated \<noteq> '''' \<and> parseDate (Date updated) \<noteq> None \<and>
          validateExercises (Exercises updated) = ''''"
  then have "updateChecks updated = None"
    by (simp add: updateChecks_None_iff)
  with assms show "WorkoutByIDHandler s now ''PUT'' path (Some req) =
      ((200, WorkoutBody (updated\<lparr>UpdatedAt := now\<rparr>)),
       s\<lparr>workouts := AList.update wid (updated\<lparr>UpdatedAt := now\<rparr>) (workouts s)\<rparr>)"
    by (simp add: put_accepted)
qed

theorem update_rejected_store_unchanged_witness:
  "parseWorkoutID ''/workouts/1'' = Some 1
   \<and> Get store1 1 = Some \<lparr>ID = 1, Title = ''A'', Date = ''2025-01-01'', Notes = '''',
        Exercises = [], CreatedAt = 5, UpdatedAt = 5\<rparr>
   \<and> parseDate ''2025-13-40'' = None
   \<and> WorkoutByIDHandler store1 9 ''PUT'' ''/workouts/1'' (Some bad_patch) =
       ((400, APIError ''date must be YYYY-MM-DD''), store1)"
proof -
  let ?cur = "\<lparr>ID = 1, Title = ''A'', Date = ''2025-01-01'', Notes = '''',
        Exercises = [], CreatedAt = 5, UpdatedAt = 5\<rparr>"
  let ?u = "trimUpdated (applyPatch ?cur bad_patch)"
  have p: "parseWorkoutID ''/workouts/1'' = Some 1" by code_simp
  have g: "Get store1 1 = Some ?cur" by code_simp
  have d: "parseDate ''2025-13-40'' = None" by code_simp
  have u: "Date ?u = ''2025-13-40''" by code_simp
  have c: "updateChecks ?u = Some ''date must be YYYY-MM-DD''" by code_simp
  from update_rejected_store_unchanged [OF p g refl, of bad_patch 9] u d c
  have "WorkoutByIDHandler store1 9 ''PUT'' ''/workouts/1'' (Some bad_patch) =
       ((400, APIError ''date must be YYYY-MM-DD''), store1)"
    by auto
  with p g d show ?thesis by blast
qed

section \<open>Identifiers issued by the store\<close>

lemma int_wrap_id: "- (2 ^ 63) \<le> x \<Longrightarrow> x < 2 ^ 63 \<Longrightarrow> int_wrap x = x"
  by (simp add: int_wrap_def)

lemma Create_ID [simp]: "ID (fst (Create s now w)) = nextID s"
  by (simp add: Create_def Let_def)

lemma Create_nextID: "nextID (snd (Create s now w)) = int_wrap (nextID s + 1)"
  by (simp add: Create_def Let_def)

lemma Update_nextID [simp]: "nextID (snd (Update s now wid upd)) = nextID s"
  by (simp add: Update_def Let_def split: option.splits)

lemma Delete_nextID [simp]: "nextID (snd (Delete s wid)) = nextID s"
  by (simp add: Delete_def split: option.splits)

lemma run_ops_Create:
  "run_ops s (OpCreate now w # ops) =
     (nextID s # fst (run_ops (snd (Create s now w)) ops),
      snd (run_ops (snd (Create s now w)) ops))"
  by (simp add: Create_def Let_def split: prod.splits)

lemma run_ops_ids:
  assumes "1 \<le> nextID s0" and "nextID s0 + int (length ops) < 2 ^ 63"
  shows "fst (run_ops s0 ops) = [nextID s0 .. nextID s0 + int (length (fst (run_ops s0 ops))) - 1]
       \<and> nextID (snd (run_ops s0 ops)) = nextID s0 + int (length (fst (run_ops s0 ops)))
       \<and> length (fst (run_ops s0 ops)) \<le> length ops"
  using assms
proof (induction ops arbitrary: s0)
  case Nil
  then show ?case by simp
next
  case (Cons op ops)
  show ?case
  proof (cases op)
    case (OpCreate now w)
    let ?s1 = "snd (Create s0 now w)"
    let ?ids = "fst (run_ops ?s1 ops)"
    have n: "nextID ?s1 = nextID s0 + 1"
      using Cons.prems by (simp add: Create_nextID int_wrap_id)
    have "?ids = [nextID s0 + 1 .. nextID s0 + 1 + int (length ?ids) - 1]
       \<and> nextID (snd (run_ops ?s1 ops)) = nextID s0 + 1 + int (length ?ids)
       \<and> length ?ids \<le> length ops"
      using Cons.IH [of ?s1] Cons.prems n by simp
    then show ?thesis
      unfolding OpCreate run_ops_Create
      by (simp add: upto_rec1 [of "nextID s0"])
  next
    case (OpUpdate now wid upd)
    then show ?thesis
      using Cons.IH [of "snd (Update s0 now wid upd)"] Cons.prems by simp
  next
    case (OpDelete wid)
    then show ?thesis
      using Cons.IH [of "snd (Delete s0 wid)"] Cons.prems by simp
  qed
qed

text \<open>
  C2. Run any sequence of \<open>Create\<close>, \<open>Update\<close> and \<open>Delete\<close> operations on a new
  store. The identifiers \<open>Create\<close> returned, in the order of the calls, are exactly
  1, 2, 3, ...: they start at 1, each is greater than the one before, and none occurs
  twice, whatever was deleted in between. The counter is a 64-bit \<open>int\<close>, so the
  statement is for sequences short enough that it cannot wrap (fewer than
  \<open>2 ^ 63 - 1\<close> operations).
\<close>

theorem issued_ids_increasing:
  assumes "length ops < 2 ^ 63 - 1"
    and "run_ops NewWorkoutStore ops = (ids, s)"
  shows "ids = [1 .. int (length ids)] \<and> sorted_wrt (<) ids \<and> distinct ids"
proof -
  have "ids = [1 .. 1 + int (length ids) - 1]"
    using run_ops_ids [of NewWorkoutStore ops] assms
    by (simp add: NewWorkoutStore_def)
  then have e: "ids = [1 .. int (length ids)]" by simp
  have "sorted_wrt (<) [1 .. int (length ids)]" by (rule sorted_wrt_upto)
  moreover have "distinct [1 .. int (length ids)]" by simp
  ultimately show ?thesis using e by metis
qed

theorem issued_ids_increasing_witness:
  "length ops_create_delete_create < 2 ^ 63 - 1
   \<and> fst (run_ops NewWorkoutStore ops_create_delete_create) = [1, 2]
   \<and> Get (snd (run_ops NewWorkoutStore ops_create_delete_create)) 1 = None
   \<and> sorted_wrt (<) (fst (run_ops NewWorkoutStore ops_create_delete_create))
   \<and> distinct (fst (run_ops NewWorkoutStore ops_create_delete_create))"
proof -
  have l: "length ops_create_delete_create < 2 ^ 63 - 1"
    by (simp add: ops_create_delete_create_def)
  have r: "fst (run_ops NewWorkoutStore ops_create_delete_create) = [1, 2]"
    by code_simp
  have g: "Get (snd (run_ops NewWorkoutStore ops_create_delete_create)) 1 = None"
    by code_simp
  have "sorted_wrt (<) (fst (run_ops NewWorkoutStore ops_create_delete_create))
      \<and> distinct (fst (run_ops NewWorkoutStore ops_create_delete_create))"
    using issued_ids_increasing [OF l surjective_pairing] by simp
  with l r g show ?thesis by simp
qed

section \<open>Partial update\<close>

text \<open>
  C3. Take a store the API has reached from a new one, a record \<open>cur\<close> stored in it
  and a patch the PUT handler accepts (it answers 200 with the record \<open>final\<close>). Then
  \<open>final\<close> is what the store holds under that id afterwards and every other id reads
  as before. Each of title, date and notes present in the patch is stored trimmed; a
  present exercises list is stored as sent, in place of the old list; each field the
  patch leaves out keeps the value of \<open>cur\<close>. ID and createdAt are those of \<open>cur\<close>.
  updatedAt is the clock reading of the update; it is strictly greater than before
  whenever the clock readings of the requests so far and of this one are strictly
  increasing (the store takes its time from \<open>time.Now()\<close>, so this is a property of the
  clock it is given).
\<close>

theorem partial_update_merge:
  assumes "s = serve_all NewWorkoutStore calls"
    and "parseWorkoutID path = Some wid"
    and "Get s wid = Some cur"
    and "WorkoutByIDHandler s now ''PUT'' path (Some req) = ((200, WorkoutBody final), s')"
  shows "Get s' wid = Some final
       \<and> (\<forall>k. k \<noteq> wid \<longrightarrow> Get s' k = Get s k)
       \<and> Title final = (case uTitle req of None \<Rightarrow> Title cur | Some t \<Rightarrow> TrimSpace t)
       \<and> Date final = (case uDate req of None \<Rightarrow> Date cur | Some d \<Rightarrow> TrimSpace d)
       \<and> Notes final = (case uNotes req of None \<Rightarrow> Notes cur | Some n \<Rightarrow> TrimSpace n)
       \<and> Exercises final = (case uExercises req of None \<Rightarrow> Exercises cur | Some exs \<Rightarrow> exs)
       \<and> ID final = ID cur
       \<and> CreatedAt final = CreatedAt cur
       \<and> UpdatedAt final = now
       \<and> (sorted_wrt (<) (map fst calls @ [now]) \<longrightarrow> UpdatedAt cur < UpdatedAt final)"
proof -
  let ?u = "trimUpdated (applyPatch cur req)"
  have ok: "record_ok cur"
    using reached_store_ok [of calls] assms(1,3) by (simp add: store_ok_def)
  have f: "final = ?u\<lparr>UpdatedAt := now\<rparr>"
    and s': "s' = s\<lparr>workouts := AList.update wid final (workouts s)\<rparr>"
    using put_200 [OF assms(2,3,4)] by simp_all
  have g: "Get s' wid = Some final" and o: "\<forall>k. k \<noteq> wid \<longrightarrow> Get s' k = Get s k"
    using s' by (simp_all add: Get_def update_conv')
  have t: "sorted_wrt (<) (map fst calls @ [now]) \<longrightarrow> UpdatedAt cur < UpdatedAt final"
  proof
    assume "sorted_wrt (<) (map fst calls @ [now])"
    then have "\<forall>x\<in>fst ` set calls. x < now"
      by (simp add: sorted_wrt_append)
    moreover have "UpdatedAt cur \<in> fst ` set calls"
      using reached_stamps [of calls] assms(1,3) by (simp add: stamps_in_def)
    ultimately show "UpdatedAt cur < UpdatedAt final" using f by auto
  qed
  show ?thesis
    using g o t f candidate_fields [OF ok refl, of req] by simp
qed

theorem partial_update_merge_witness:
  "store1 = serve_all NewWorkoutStore calls1
   \<and> parseWorkoutID ''/workouts/1'' = Some 1
   \<and> Get store1 1 = Some \<lparr>ID = 1, Title = ''A'', Date = ''2025-01-01'', Notes = '''',
        Exercises = [], CreatedAt = 5, UpdatedAt = 5\<rparr>
   \<and> WorkoutByIDHandler store1 9 ''PUT'' ''/workouts/1'' (Some notes_patch) =
       ((200, WorkoutBody \<lparr>ID = 1, Title = ''A'', Date = ''2025-01-01'', Notes = ''easy'',
          Exercises = [], CreatedAt = 5, UpdatedAt = 9\<rparr>),
        \<lparr>nextID = 2, workouts = [(1, \<lparr>ID = 1, Title = ''A'', Date = ''2025-01-01'',
          Notes = ''easy'', Exercises = [], CreatedAt = 5, UpdatedAt = 9\<rparr>)]\<rparr>)
   \<and> sorted_wrt (<) (map fst calls1 @ [9])
   \<and> UpdatedAt \<lparr>ID = 1, Title = ''A'', Date = ''2025-01-01'', Notes = '''',
        Exercises = [], CreatedAt = 5, UpdatedAt = 5\<rparr>
      < UpdatedAt \<lparr>ID = 1, Title = ''A'', Date = ''2025-01-01'', Notes = ''easy'',
          Exercises = [], CreatedAt = 5, UpdatedAt = 9\<rparr>"
proof -
  let ?cur = "\<lparr>ID = 1, Title = ''A'', Date = ''2025-01-01'', Notes = '''',
        Exercises = [], CreatedAt = 5, UpdatedAt = 5\<rparr>"
  let ?final = "\<lparr>ID = 1, Title = ''A'', Date = ''2025-01-01'', Notes = ''easy'',
          Exercises = [], CreatedAt = 5, UpdatedAt = 9\<rparr>"
  have s: "store1 = serve_all NewWorkoutStore calls1" by (simp add: calls1_store)
  have p: "parseWorkoutID ''/workouts/1'' = Some 1" by code_simp
  have g: "Get store1 1 = Some ?cur" by code_simp
  have h: "WorkoutByIDHandler store1 9 ''PUT'' ''/workouts/1'' (Some notes_patch) =
       ((200, WorkoutBody ?final), \<lparr>nextID = 2, workouts = [(1, ?final)]\<rparr>)"
    by code_simp
  have c: "sorted_wrt (<) (map fst calls1 @ [9])" by (simp add: calls1_def)
  from partial_update_merge [OF s p g h]
  have "sorted_wrt (<) (map fst calls1 @ [9]) \<longrightarrow> UpdatedAt ?cur < UpdatedAt ?final"
    by (elim conjE)
  with c have "UpdatedAt ?cur < UpdatedAt ?final" by (rule rev_mp)
  with s p g h c show ?thesis by (intro conjI)
qed

section \<open>Create followed by Get\<close>

lemma Create_Get: "Get (snd (Create s now w)) (nextID s) = Some (fst (Create s now w))"
  by (simp add: Create_def Get_def Let_def update_conv')

lemma Create_Get_other: "k \<noteq> nextID s \<Longrightarrow> Get (snd (Create s now w)) k = Get s k"
  by (simp add: Create_def Get_def Let_def update_conv')

text \<open>
  C4. Take any store reached from a new one by store operations (fewer than
  \<open>2 ^ 63 - 1\<close> of them, so that the 64-bit counter has not wrapped) and any candidate.
  \<open>Create\<close> has no error result. The record it returns is the candidate with the ID
  replaced by the next sequential one (one more than the number of IDs issued so far)
  and both timestamps set to the same clock reading; the ID the caller put in the
  candidate has no effect on the result. \<open>Get\<close> on the returned ID finds exactly the
  returned record, every other ID reads as before, the ID is positive and createdAt
  equals updatedAt.
\<close>

theorem create_then_get:
  assumes "length ops < 2 ^ 63 - 1"
    and "run_ops NewWorkoutStore ops = (ids, s)"
    and "Create s now w = (created, s')"
  shows "created = w\<lparr>ID := int (length ids) + 1, CreatedAt := now, UpdatedAt := now\<rparr>
       \<and> Create s now (w\<lparr>ID := k\<rparr>) = (created, s')
       \<and> Get s' (ID created) = Some created
       \<and> (\<forall>j. j \<noteq> ID created \<longrightarrow> Get s' j = Get s j)
       \<and> 0 < ID created
       \<and> CreatedAt created = UpdatedAt created"
proof -
  have n: "nextID s = 1 + int (length ids)"
    using run_ops_ids [of NewWorkoutStore ops] assms(1,2)
    by (simp add: NewWorkoutStore_def)
  have c: "created = w\<lparr>ID := nextID s, CreatedAt := now, UpdatedAt := now\<rparr>"
    using assms(3) by (auto simp: Create_def Let_def)
  have i: "Create s now (w\<lparr>ID := k\<rparr>) = (created, s')"
    using assms(3) by (auto simp: Create_def Let_def)
  have g: "Get s' (ID created) = Some created"
    using Create_Get [of s now w] assms(3) c by simp
  have o: "\<forall>j. j \<noteq> ID created \<longrightarrow> Get s' j = Get s j"
    using Create_Get_other [of _ s now w] assms(3) c by simp
  from n c i g o show ?thesis by simp
qed

theorem create_then_get_witness:
  "length [OpCreate 5 wk_a, OpDelete 1] < 2 ^ 63 - 1
   \<and> run_ops NewWorkoutStore [OpCreate 5 wk_a, OpDelete 1] = ([1], \<lparr>nextID = 2, workouts = []\<rparr>)
   \<and> Create \<lparr>nextID = 2, workouts = []\<rparr> 8 wk_a = (wk_a\<lparr>ID := 2, CreatedAt := 8, UpdatedAt := 8\<rparr>,
        \<lparr>nextID = 3, workouts = [(2, wk_a\<lparr>ID := 2, CreatedAt := 8, UpdatedAt := 8\<rparr>)]\<rparr>)
   \<and> Get \<lparr>nextID = 3, workouts = [(2, wk_a\<lparr>ID := 2, CreatedAt := 8, UpdatedAt := 8\<rparr>)]\<rparr> 2
       = Some (wk_a\<lparr>ID := 2, CreatedAt := 8, UpdatedAt := 8\<rparr>)"
proof -
  have l: "length [OpCreate 5 wk_a, OpDelete 1] < 2 ^ 63 - 1" by simp
  have r: "run_ops NewWorkoutStore [OpCreate 5 wk_a, OpDelete 1] = ([1], \<lparr>nextID = 2, workouts = []\<rparr>)"
    by code_simp
  have c: "Create \<lparr>nextID = 2, workouts = []\<rparr> 8 wk_a = (wk_a\<lparr>ID := 2, CreatedAt := 8, UpdatedAt := 8\<rparr>,
        \<lparr>nextID = 3, workouts = [(2, wk_a\<lparr>ID := 2, CreatedAt := 8, UpdatedAt := 8\<rparr>)]\<rparr>)"
    by code_simp
  have "Get \<lparr>nextID = 3, workouts = [(2, wk_a\<lparr>ID := 2, CreatedAt := 8, UpdatedAt := 8\<rparr>)]\<rparr>
          (ID (wk_a\<lparr>ID := 2, CreatedAt := 8, UpdatedAt := 8\<rparr>))
       = Some (wk_a\<lparr>ID := 2, CreatedAt := 8, UpdatedAt := 8\<rparr>)"
    using create_then_get [OF l r c, where k = 0] by (elim conjE)
  then show ?thesis using l r c by simp
qed

section \<open>Exercise validation\<close>

lemma validateSets_spec:
  "validateSets name j sets =
     first_failure (map (\<lambda>(j, st). spec_set_failure name j st) (enumerate j sets))"
proof (induction sets arbitrary: j)
  case Nil
  show ?case by simp
next
  case (Cons st sets)
  show ?case
  proof (cases "Weight st")
    case None
    then show ?thesis using Cons.IH [of "Suc j"] by (simp add: spec_set_failure_def)
  next
    case (Some w)
    then show ?thesis using Cons.IH [of "Suc j"]
      by (simp add: spec_set_failure_def not_le)
  qed
qed

lemma first_failure_nonempty:
  "first_failure (map (\<lambda>(j, st). spec_set_failure name j st) (enumerate j sets)) = Some m
   \<Longrightarrow> m \<noteq> []"
  using validateSets_Some_nonempty [of name j sets m] by (simp add: validateSets_spec)

lemma validateExercises_from_spec:
  "validateExercises_from i exs =
     (case first_failure (map (\<lambda>(i, ex). spec_exercise_failure i ex) (enumerate i exs)) of
        None \<Rightarrow> ''''
      | Some msg \<Rightarrow> msg)"
proof (induction exs arbitrary: i)
  case Nil
  show ?case by simp
next
  case (Cons ex exs)
  show ?case
    using Cons.IH [of "Suc i"]
    by (simp add: Let_def spec_exercise_failure_def validateSets_spec split: option.splits)
qed

text \<open>
  C5. \<open>validateExercises\<close> computes what the specification words: it takes the
  exercises in list order and returns the message of the first failure, the empty
  message when there is none. The exercise at index \<open>i\<close> fails on a blank trimmed
  name with a message naming \<open>i\<close>, then on having no sets with a message naming the
  exercise, then on its first failing set; the set at index \<open>j\<close> fails on
  \<open>reps <= 0\<close> and then on a present negative weight, each with a message naming
  the exercise and \<open>j\<close>. An empty list of exercises is accepted.
\<close>

theorem validateExercises_first_failure:
  "validateExercises exercises = spec_validateExercises exercises
   \<and> validateExercises [] = ''''"
  by (simp add: validateExercises_def spec_validateExercises_def validateExercises_from_spec)

theorem validateExercises_first_failure_witness:
  "validateExercises exs_weight_then_name =
     ''weight must be >= 0 for exercise: Squat, set index 1''
   \<and> spec_validateExercises exs_weight_then_name =
     ''weight must be >= 0 for exercise: Squat, set index 1''
   \<and> validateExercises (tl exs_weight_then_name) = ''exercise name is required (at index 0)''
   \<and> validateExercises [\<lparr>Name = ''Squat'', Sets = []\<rparr>] =
     ''exercise sets must have at least 1 set for: Squat''"
proof -
  have 1: "validateExercises exs_weight_then_name =
     ''weight must be >= 0 for exercise: Squat, set index 1''" by code_simp
  have 2: "spec_validateExercises exs_weight_then_name =
     ''weight must be >= 0 for exercise: Squat, set index 1''"
    using validateExercises_first_failure [of exs_weight_then_name] 1 by simp
  have 3: "validateExercises (tl exs_weight_then_name) =
     ''exercise name is required (at index 0)''" by code_simp
  have 4: "validateExercises [\<lparr>Name = ''Squat'', Sets = []\<rparr>] =
     ''exercise sets must have at least 1 set for: Squat''" by code_simp
  from 1 2 3 4 show ?thesis by (intro conjI)
qed

section \<open>The update path checks as the create path does\<close>

text \<open>
  C6, as the code has it. Let \<open>u\<close> be the candidate a PUT builds from the stored record
  and the patch, and give the create path a request with the same title, date, notes
  and exercises. The PUT is rejected with 400 exactly when the POST is, and accepted
  (200) exactly when the POST is accepted (201). When the trimmed title and the
  trimmed date are not empty, a rejection carries the same message on both paths (the
  date format message or the message of \<open>validateExercises\<close>). For an empty trimmed
  title and for an empty trimmed date the two paths word the message differently:
  \<open>title cannot be empty\<close> against \<open>title is required\<close>, and \<open>date cannot be empty\<close>
  against \<open>date is required (YYYY-MM-DD)\<close>.
\<close>

theorem update_checks_like_create:
  assumes "parseWorkoutID path = Some wid"
    and "Get s wid = Some cur"
    and "u = applyPatch cur req"
  shows "(fst (fst (WorkoutByIDHandler s now ''PUT'' path (Some req))) = 400 \<longleftrightarrow>
          fst (fst (WorkoutsHandler s' now' ''POST'' (Some (as_request u)))) = 400)
       \<and> (fst (fst (WorkoutByIDHandler s now ''PUT'' path (Some req))) = 200 \<longleftrightarrow>
          fst (fst (WorkoutsHandler s' now' ''POST'' (Some (as_request u)))) = 201)
       \<and> (TrimSpace (Title u) \<noteq> '''' \<and> TrimSpace (Date u) \<noteq> '''' \<longrightarrow>
            (\<forall>msg. fst (WorkoutByIDHandler s now ''PUT'' path (Some req)) = (400, APIError msg) \<longleftrightarrow>
                   fst (WorkoutsHandler s' now' ''POST'' (Some (as_request u))) = (400, APIError msg)))
       \<and> (TrimSpace (Title u) = '''' \<longrightarrow>
            fst (WorkoutByIDHandler s now ''PUT'' path (Some req)) =
              (400, APIError ''title cannot be empty'') \<and>
            fst (WorkoutsHandler s' now' ''POST'' (Some (as_request u))) =
              (400, APIError ''title is required''))
       \<and> (TrimSpace (Title u) \<noteq> '''' \<and> TrimSpace (Date u) = '''' \<longrightarrow>
            fst (WorkoutByIDHandler s now ''PUT'' path (Some req)) =
              (400, APIError ''date cannot be empty'') \<and>
            fst (WorkoutsHandler s' now' ''POST'' (Some (as_request u))) =
              (400, APIError ''date is required (YYYY-MM-DD)''))"
proof -
  let ?put = "WorkoutByIDHandler s now ''PUT'' path (Some req)"
  let ?post = "WorkoutsHandler s' now' ''POST'' (Some (as_request u))"
  let ?uc = "updateChecks (trimUpdated u)"
  let ?cc = "createChecks (trimCreate (as_request u))"
  have put_r: "fst ?put = (400, APIError msg)" if "?uc = Some msg" for msg
    using put_rejected [OF assms(1,2), of req msg now] that assms(3) by simp
  have put_a: "fst (fst ?put) = 200" if "?uc = None"
    using put_accepted [OF assms(1,2), of req now] that assms(3) by simp
  have post_r: "fst ?post = (400, APIError msg)" if "?cc = Some msg" for msg
    using post_rejected [OF that, of s' now'] by simp
  have post_a: "fst (fst ?post) = 201" if "?cc = None"
    using post_accepted [OF that] .
  have 1: "fst (fst ?put) = 400 \<longleftrightarrow> fst (fst ?post) = 400"
  proof (cases ?uc)
    case None
    then have "?cc = None" using checks_agree by blast
    with None put_a post_a show ?thesis by simp
  next
    case (Some m)
    then obtain m' where "?cc = Some m'" using checks_agree [of u] by (cases ?cc) auto
    with Some put_r post_r show ?thesis by simp
  qed
  have acc: "fst (fst ?put) = 200 \<longleftrightarrow> fst (fst ?post) = 201"
  proof (cases ?uc)
    case None
    then have "?cc = None" using checks_agree by blast
    with None put_a post_a show ?thesis by simp
  next
    case (Some m)
    then obtain m' where "?cc = Some m'" using checks_agree [of u] by (cases ?cc) auto
    with Some put_r post_r show ?thesis by simp
  qed
  have 2: "\<forall>msg. fst ?put = (400, APIError msg) \<longleftrightarrow> fst ?post = (400, APIError msg)"
    if t: "TrimSpace (Title u) \<noteq> '''' \<and> TrimSpace (Date u) \<noteq> ''''"
  proof (cases ?uc)
    case None
    then have "?cc = None" using checks_agree by blast
    with None put_a post_a show ?thesis by (auto simp: prod_eq_iff)
  next
    case (Some m)
    then have "?cc = Some m" using checks_same_message [of u] t by simp
    with Some put_r post_r show ?thesis by simp
  qed
  have 3: "fst ?put = (400, APIError ''title cannot be empty'') \<and>
           fst ?post = (400, APIError ''title is required'')"
    if "TrimSpace (Title u) = ''''"
    using checks_title_messages [OF that] put_r post_r by simp
  have 4: "fst ?put = (400, APIError ''date cannot be empty'') \<and>
           fst ?post = (400, APIError ''date is required (YYYY-MM-DD)'')"
    if "TrimSpace (Title u) \<noteq> '''' \<and> TrimSpace (Date u) = ''''"
    using checks_date_messages [of u] that put_r post_r by simp
  from 1 acc 2 3 4 show ?thesis by blast
qed

theorem update_checks_like_create_witness:
  "parseWorkoutID ''/workouts/1'' = Some 1
   \<and> Get store1 1 = Some \<lparr>ID = 1, Title = ''A'', Date = ''2025-01-01'', Notes = '''',
        Exercises = [], CreatedAt = 5, UpdatedAt = 5\<rparr>
   \<and> TrimSpace (Title (applyPatch \<lparr>ID = 1, Title = ''A'', Date = ''2025-01-01'', Notes = '''',
        Exercises = [], CreatedAt = 5, UpdatedAt = 5\<rparr> bad_reps_patch)) \<noteq> ''''
   \<and> TrimSpace (Date (applyPatch \<lparr>ID = 1, Title = ''A'', Date = ''2025-01-01'', Notes = '''',
        Exercises = [], CreatedAt = 5, UpdatedAt = 5\<rparr> bad_reps_patch)) \<noteq> ''''
   \<and> fst (WorkoutByIDHandler store1 9 ''PUT'' ''/workouts/1'' (Some bad_reps_patch)) =
        (400, APIError ''reps must be > 0 for exercise: Squat, set index 0'')
   \<and> fst (WorkoutsHandler NewWorkoutStore 3 ''POST''
          (Some (as_request (applyPatch \<lparr>ID = 1, Title = ''A'', Date = ''2025-01-01'',
             Notes = '''', Exercises = [], CreatedAt = 5, UpdatedAt = 5\<rparr> bad_reps_patch)))) =
        (400, APIError ''reps must be > 0 for exercise: Squat, set index 0'')"
proof -
  let ?cur = "\<lparr>ID = 1, Title = ''A'', Date = ''2025-01-01'', Notes = '''',
        Exercises = [], CreatedAt = 5, UpdatedAt = 5\<rparr>"
  let ?u = "applyPatch ?cur bad_reps_patch"
  let ?msg = "''reps must be > 0 for exercise: Squat, set index 0''"
  have p: "parseWorkoutID ''/workouts/1'' = Some 1" by code_simp
  have g: "Get store1 1 = Some ?cur" by code_simp
  have t: "TrimSpace (Title ?u) \<noteq> ''''" by code_simp
  have d: "TrimSpace (Date ?u) \<noteq> ''''" by code_simp
  have h: "fst (WorkoutByIDHandler store1 9 ''PUT'' ''/workouts/1'' (Some bad_reps_patch)) =
        (400, APIError ?msg)" by code_simp
  from update_checks_like_create [OF p g refl, of 9 bad_reps_patch NewWorkoutStore 3]
  have "TrimSpace (Title ?u) \<noteq> '''' \<and> TrimSpace (Date ?u) \<noteq> '''' \<longrightarrow>
      (\<forall>msg. fst (WorkoutByIDHandler store1 9 ''PUT'' ''/workouts/1'' (Some bad_reps_patch))
               = (400, APIError msg) \<longleftrightarrow>
             fst (WorkoutsHandler NewWorkoutStore 3 ''POST'' (Some (as_request ?u)))
               = (400, APIError msg))"
    by (elim conjE)
  with t d have "fst (WorkoutByIDHandler store1 9 ''PUT'' ''/workouts/1'' (Some bad_reps_patch))
               = (400, APIError ?msg) \<longleftrightarrow>
             fst (WorkoutsHandler NewWorkoutStore 3 ''POST'' (Some (as_request ?u)))
               = (400, APIError ?msg)"
    by blast
  with h have "fst (WorkoutsHandler NewWorkoutStore 3 ''POST'' (Some (as_request ?u)))
      = (400, APIError ?msg)" by (rule rev_iffD1)
  with p g t d h show ?thesis by (intro conjI)
qed

theorem update_message_differs_counterexample:
  "fst (WorkoutByIDHandler store1 9 ''PUT'' ''/workouts/1'' (Some blank_title_patch)) =
      (400, APIError ''title cannot be empty'')
   \<and> fst (WorkoutsHandler NewWorkoutStore 3 ''POST''
        (Some (as_request (applyPatch \<lparr>ID = 1, Title = ''A'', Date = ''2025-01-01'',
           Notes = '''', Exercises = [], CreatedAt = 5, UpdatedAt = 5\<rparr> blank_title_patch)))) =
      (400, APIError ''title is required'')
   \<and> ''title cannot be empty'' \<noteq> ''title is required''"
  by code_simp

section \<open>What a successful create stores\<close>

text \<open>
  C7, as the code has it. When the POST handler answers 201, the record it returns is
  the record stored under the new ID. Its title, date and notes are the trimmed values
  of the request, and the title is not empty. Its exercises are the list of the
  request, element for element as sent: the handler trims an exercise name only to
  check it and to quote it in a message, so every stored name has a non-empty trimmed
  form but keeps whatever white space surrounded it in the request.
\<close>

theorem create_stores_request:
  assumes "WorkoutsHandler s now ''POST'' (Some req) = ((201, WorkoutBody created), s')"
  shows "Get s' (ID created) = Some created
       \<and> ID created = nextID s
       \<and> Title created = TrimSpace (cTitle req) \<and> Title created \<noteq> ''''
       \<and> Date created = TrimSpace (cDate req)
       \<and> Notes created = TrimSpace (cNotes req)
       \<and> Exercises created = cExercises req
       \<and> (\<forall>ex\<in>set (Exercises created). TrimSpace (Name ex) \<noteq> '''')
       \<and> CreatedAt created = now \<and> UpdatedAt created = now"
proof -
  note p = post_201 [OF assms]
  from p have c: "createChecks (trimCreate req) = None" by simp
  from p have e: "created = \<lparr>ID = nextID s, Title = TrimSpace (cTitle req),
           Date = TrimSpace (cDate req), Notes = TrimSpace (cNotes req),
           Exercises = cExercises req, CreatedAt = now, UpdatedAt = now\<rparr>" by simp
  from p have s': "s' = s\<lparr>workouts := AList.update (nextID s) created (workouts s),
               nextID := int_wrap (nextID s + 1)\<rparr>" by simp
  have t: "TrimSpace (cTitle req) \<noteq> ''''" and v: "validateExercises (cExercises req) = ''''"
    using c by (auto simp: createChecks_def trimCreate_def split: if_splits)
  have n: "\<forall>ex\<in>set (cExercises req). TrimSpace (Name ex) \<noteq> ''''"
    using validateExercises_from_ok [of 0 "cExercises req"] v
    by (simp add: validateExercises_def)
  have g: "Get s' (ID created) = Some created"
    using s' e by (simp add: Get_def update_conv')
  show ?thesis using g e t n by simp
qed

theorem create_stores_request_witness:
  "WorkoutsHandler NewWorkoutStore 3 ''POST'' (Some req_padded) =
     ((201, WorkoutBody created_padded), \<lparr>nextID = 2, workouts = [(1, created_padded)]\<rparr>)
   \<and> Get \<lparr>nextID = 2, workouts = [(1, created_padded)]\<rparr> (ID created_padded) = Some created_padded
   \<and> Title created_padded = TrimSpace (cTitle req_padded)
   \<and> Notes created_padded = TrimSpace (cNotes req_padded)
   \<and> Exercises created_padded = cExercises req_padded"
proof -
  have h: "WorkoutsHandler NewWorkoutStore 3 ''POST'' (Some req_padded) =
     ((201, WorkoutBody created_padded), \<lparr>nextID = 2, workouts = [(1, created_padded)]\<rparr>)"
    by code_simp
  note t = create_stores_request [OF h]
  from t have 1: "Get \<lparr>nextID = 2, workouts = [(1, created_padded)]\<rparr> (ID created_padded)
      = Some created_padded" by (elim conjE)
  from t have 2: "Title created_padded = TrimSpace (cTitle req_padded)" by (elim conjE)
  from t have 3: "Notes created_padded = TrimSpace (cNotes req_padded)" by (elim conjE)
  from t have 4: "Exercises created_padded = cExercises req_padded" by (elim conjE)
  from h 1 2 3 4 show ?thesis by (intro conjI)
qed

theorem exercise_name_not_trimmed_counterexample:
  "WorkoutsHandler NewWorkoutStore 3 ''POST'' (Some req_padded) =
     ((201, WorkoutBody created_padded), \<lparr>nextID = 2, workouts = [(1, created_padded)]\<rparr>)
   \<and> map Name (Exercises created_padded) = ['' Squat '']
   \<and> TrimSpace '' Squat '' = ''Squat''
   \<and> '' Squat '' \<noteq> ''Squat''"
  by code_simp

section \<open>Date errors on the create path\<close>

text \<open>
  C8, as the code has it. The title is checked before the date, so the date messages
  are reached by a request whose trimmed title is not empty. Such a request with an
  empty trimmed date is answered 400 with the message
  \<open>date is required (YYYY-MM-DD)\<close> (the text of the source, longer than the
  \<open>date is required\<close> of the claim); with a trimmed date that is not empty and that
  \<open>time.Parse\<close> refuses it is answered 400 with \<open>date must be YYYY-MM-DD\<close>. The
  store is left as it was in both cases.
\<close>

theorem create_date_messages:
  assumes "TrimSpace (cTitle req) \<noteq> ''''"
  shows "(TrimSpace (cDate req) = '''' \<longrightarrow>
            WorkoutsHandler s now ''POST'' (Some req) =
              ((400, APIError ''date is required (YYYY-MM-DD)''), s))
       \<and> (TrimSpace (cDate req) \<noteq> '''' \<and> parseDate (TrimSpace (cDate req)) = None \<longrightarrow>
            WorkoutsHandler s now ''POST'' (Some req) =
              ((400, APIError ''date must be YYYY-MM-DD''), s))"
  using assms by (simp add: post_rejected createChecks_def trimCreate_def)

theorem create_date_messages_witness:
  "TrimSpace (cTitle date_missing) \<noteq> '''' \<and> TrimSpace (cDate date_missing) = ''''
   \<and> WorkoutsHandler NewWorkoutStore 3 ''POST'' (Some date_missing) =
       ((400, APIError ''date is required (YYYY-MM-DD)''), NewWorkoutStore)
   \<and> TrimSpace (cTitle date_malformed) \<noteq> '''' \<and> TrimSpace (cDate date_malformed) \<noteq> ''''
   \<and> parseDate (TrimSpace (cDate date_malformed)) = None
   \<and> WorkoutsHandler NewWorkoutStore 3 ''POST'' (Some date_malformed) =
       ((400, APIError ''date must be YYYY-MM-DD''), NewWorkoutStore)"
proof -
  have t1: "TrimSpace (cTitle date_missing) \<noteq> ''''" by code_simp
  have d1: "TrimSpace (cDate date_missing) = ''''" by code_simp
  have t2: "TrimSpace (cTitle date_malformed) \<noteq> ''''" by code_simp
  have d2: "TrimSpace (cDate date_malformed) \<noteq> ''''" by code_simp
  have p2: "parseDate (TrimSpace (cDate date_malformed)) = None" by code_simp
  show ?thesis
    using t1 d1 t2 d2 p2
      create_date_messages [OF t1, of NewWorkoutStore 3]
      create_date_messages [OF t2, of NewWorkoutStore 3]
    by simp
qed

theorem create_date_required_counterexample:
  "TrimSpace (cDate date_missing) = ''''
   \<and> WorkoutsHandler NewWorkoutStore 3 ''POST'' (Some date_missing) =
       ((400, APIError ''date is required (YYYY-MM-DD)''), NewWorkoutStore)
   \<and> ''date is required (YYYY-MM-DD)'' \<noteq> ''date is required''
   \<and> TrimSpace (cDate title_and_date_missing) = ''''
   \<and> WorkoutsHandler NewWorkoutStore 3 ''POST'' (Some title_and_date_missing) =
       ((400, APIError ''title is required''), NewWorkoutStore)"
  by code_simp

section \<open>Methods a handler does not support\<close>

text \<open>
  C9, as the code has it, handler by handler. The handler of \<open>/workouts\<close> answers 405
  to every method other than GET and POST. The handler of \<open>/workouts/{id}\<close> answers 405
  to every method other than GET, PUT and DELETE when the path parses to a positive
  id. Neither touches the store then. The handler of \<open>/health\<close> has no method switch:
  it answers 200 with the status body to every method, so it never answers 405.
\<close>

theorem method_not_allowed:
  "(method \<noteq> ''GET'' \<and> method \<noteq> ''POST'' \<longrightarrow>
      WorkoutsHandler s now method body = ((405, APIError ''Method not allowed''), s))
   \<and> (parseWorkoutID path \<noteq> None \<and> method \<noteq> ''GET'' \<and> method \<noteq> ''PUT'' \<and>
      method \<noteq> ''DELETE'' \<longrightarrow>
      WorkoutByIDHandler s now method path body' = ((405, APIError ''Method not allowed''), s))
   \<and> HealthHandler method = (200, StatusOk)"
proof (intro conjI impI)
  assume "method \<noteq> ''GET'' \<and> method \<noteq> ''POST''"
  then show "WorkoutsHandler s now method body = ((405, APIError ''Method not allowed''), s)"
    by (simp add: WorkoutsHandler_def WriteError_def WriteJSON_def)
next
  assume a: "parseWorkoutID path \<noteq> None \<and> method \<noteq> ''GET'' \<and> method \<noteq> ''PUT'' \<and>
      method \<noteq> ''DELETE''"
  then obtain wid where "parseWorkoutID path = Some wid" by auto
  with a show "WorkoutByIDHandler s now method path body' =
      ((405, APIError ''Method not allowed''), s)"
    by (simp add: WorkoutByIDHandler_def WriteError_def WriteJSON_def)
next
  show "HealthHandler method = (200, StatusOk)"
    by (simp add: HealthHandler_def WriteJSON_def)
qed

theorem method_not_allowed_witness:
  "parseWorkoutID ''/workouts/7'' \<noteq> None
   \<and> WorkoutsHandler store1 3 ''PATCH'' None = ((405, APIError ''Method not allowed''), store1)
   \<and> WorkoutByIDHandler store1 3 ''PATCH'' ''/workouts/7'' None =
       ((405, APIError ''Method not allowed''), store1)
   \<and> HealthHandler ''PATCH'' = (200, StatusOk)"
proof -
  have p: "parseWorkoutID ''/workouts/7'' \<noteq> None" by code_simp
  have m: "''PATCH'' \<noteq> ''GET'' \<and> ''PATCH'' \<noteq> ''POST''" by simp
  have m': "parseWorkoutID ''/workouts/7'' \<noteq> None \<and> ''PATCH'' \<noteq> ''GET'' \<and>
      ''PATCH'' \<noteq> ''PUT'' \<and> ''PATCH'' \<noteq> ''DELETE''" using p by simp
  note t = method_not_allowed [of "''PATCH''" store1 3 None "''/workouts/7''" None]
  from t have t1: "''PATCH'' \<noteq> ''GET'' \<and> ''PATCH'' \<noteq> ''POST'' \<longrightarrow>
      WorkoutsHandler store1 3 ''PATCH'' None =
       ((405, APIError ''Method not allowed''), store1)"
    by (rule conjunct1)
  from t1 m have 1: "WorkoutsHandler store1 3 ''PATCH'' None =
      ((405, APIError ''Method not allowed''), store1)" by (rule mp)
  from t have t2: "parseWorkoutID ''/workouts/7'' \<noteq> None \<and> ''PATCH'' \<noteq> ''GET'' \<and>
      ''PATCH'' \<noteq> ''PUT'' \<and> ''PATCH'' \<noteq> ''DELETE'' \<longrightarrow>
      WorkoutByIDHandler store1 3 ''PATCH'' ''/workouts/7'' None =
       ((405, APIError ''Method not allowed''), store1)"
    by (rule conjunct1 [OF conjunct2])
  from t have 3: "HealthHandler ''PATCH'' = (200, StatusOk)"
    by (rule conjunct2 [OF conjunct2])
  from t2 m' have 2: "WorkoutByIDHandler store1 3 ''PATCH'' ''/workouts/7'' None =
       ((405, APIError ''Method not allowed''), store1)" by (rule mp)
  from p 1 2 3 show ?thesis by (intro conjI)
qed

theorem health_post_counterexample:
  "HealthHandler ''POST'' = (200, StatusOk) \<and> fst (HealthHandler ''POST'') \<noteq> 405"
  by (simp add: HealthHandler_def WriteJSON_def)

section \<open>The empty patch\<close>

text \<open>
  C10. Take a store the API has reached from a new one and a record \<open>cur\<close> stored in
  it under an id. A PUT on that id whose body is \<open>{}\<close> (no field present) is answered
  200 with \<open>cur\<close> carrying the time of the request as updatedAt, and the store
  afterwards holds exactly that record under the id: id, title, date, notes,
  exercises and createdAt are unchanged, updatedAt is refreshed.
\<close>

theorem empty_patch_accepted:
  assumes "s = serve_all NewWorkoutStore calls"
    and "parseWorkoutID path = Some wid"
    and "Get s wid = Some cur"
  shows "WorkoutByIDHandler s now ''PUT'' path (Some empty_patch) =
     ((200, WorkoutBody (cur\<lparr>UpdatedAt := now\<rparr>)),
      s\<lparr>workouts := AList.update wid (cur\<lparr>UpdatedAt := now\<rparr>) (workouts s)\<rparr>)"
proof -
  have ok: "record_ok cur"
    using reached_store_ok [of calls] assms(1,3) by (simp add: store_ok_def)
  have a: "applyPatch cur empty_patch = cur"
    by (simp add: applyPatch_def empty_patch_def)
  have u: "trimUpdated (applyPatch cur empty_patch) = cur"
    using ok record_ok_Date [OF ok] by (simp add: a trimUpdated_def record_ok_def)
  have c: "updateChecks (trimUpdated (applyPatch cur empty_patch)) = None"
    using ok by (simp add: u record_ok_def)
  show ?thesis
    using put_accepted [OF assms(2,3) c, of now] by (simp add: u)
qed

theorem empty_patch_accepted_witness:
  "store1 = serve_all NewWorkoutStore calls1
   \<and> parseWorkoutID ''/workouts/1'' = Some 1
   \<and> Get store1 1 = Some \<lparr>ID = 1, Title = ''A'', Date = ''2025-01-01'', Notes = '''',
        Exercises = [], CreatedAt = 5, UpdatedAt = 5\<rparr>
   \<and> WorkoutByIDHandler store1 9 ''PUT'' ''/workouts/1'' (Some empty_patch) =
       ((200, WorkoutBody \<lparr>ID = 1, Title = ''A'', Date = ''2025-01-01'', Notes = '''',
          Exercises = [], CreatedAt = 5, UpdatedAt = 9\<rparr>),
        \<lparr>nextID = 2, workouts = [(1, \<lparr>ID = 1, Title = ''A'', Date = ''2025-01-01'',
          Notes = '''', Exercises = [], CreatedAt = 5, UpdatedAt = 9\<rparr>)]\<rparr>)"
proof -
  let ?cur = "\<lparr>ID = 1, Title = ''A'', Date = ''2025-01-01'', Notes = '''',
        Exercises = [], CreatedAt = 5, UpdatedAt = 5\<rparr>"
  have s: "store1 = serve_all NewWorkoutStore calls1" by (simp add: calls1_store)
  have p: "parseWorkoutID ''/workouts/1'' = Some 1" by code_simp
  have g: "Get store1 1 = Some ?cur" by code_simp
  have e: "store1\<lparr>workouts := AList.update 1 (?cur\<lparr>UpdatedAt := 9\<rparr>) (workouts store1)\<rparr>
      = \<lparr>nextID = 2, workouts = [(1, \<lparr>ID = 1, Title = ''A'', Date = ''2025-01-01'',
          Notes = '''', Exercises = [], CreatedAt = 5, UpdatedAt = 9\<rparr>)]\<rparr>"
    by (simp add: store1_def)
  have "WorkoutByIDHandler store1 9 ''PUT'' ''/workouts/1'' (Some empty_patch) =
       ((200, WorkoutBody (?cur\<lparr>UpdatedAt := 9\<rparr>)),
        store1\<lparr>workouts := AList.update 1 (?cur\<lparr>UpdatedAt := 9\<rparr>) (workouts store1)\<rparr>)"
    by (rule empty_patch_accepted [OF s p g])
  then have "WorkoutByIDHandler store1 9 ''PUT'' ''/workouts/1'' (Some empty_patch) =
       ((200, WorkoutBody \<lparr>ID = 1, Title = ''A'', Date = ''2025-01-01'', Notes = '''',
          Exercises = [], CreatedAt = 5, UpdatedAt = 9\<rparr>),
        \<lparr>nextID = 2, workouts = [(1, \<lparr>ID = 1, Title = ''A'', Date = ''2025-01-01'',
          Notes = '''', Exercises = [], CreatedAt = 5, UpdatedAt = 9\<rparr>)]\<rparr>)"
    unfolding e by simp
  with s p g show ?thesis by (intro conjI)
qed

end
